theory Spec2Isabelle
  imports Complex_Main
begin

section \<open>Data model\<close>

text \<open>
  The exchange keeps two tables, \<open>users\<close> and \<open>standing_orders\<close>, in a PostgreSQL
  database reached through GORM. The Go structs become records. An \<open>int64\<close> is modelled
  as an unbounded \<open>int\<close>: the development follows executions in which no balance or
  quantity leaves the 64-bit range. A \<open>float64\<close> is modelled by the rational number it
  denotes: the rounding of floating-point arithmetic is not modelled. The concrete inputs
  of the theorems about the claims are chosen so that each float operation on them is
  exact (where an example uses other prices, it says so). A float that may be non-finite (the average price, which the code computes by a division that can be
  \<open>0/0\<close>) is a \<open>float64 option\<close>, \<open>None\<close> standing for NaN and the infinities.
\<close>

type_synonym float64 = rat

record User =
  ID :: string
  Token :: string
  USDCentsBalance :: int
  BTCSatoshiBalance :: int

record StandingOrder =
  ID :: int
  UserId :: string
  Type :: string
  State :: string
  LimitPrice :: float64
  AveragePrice :: "float64 option"
  FulfilledQuantity :: int
  RemainingQuantity :: int
  WebhookURL :: string
  User :: User

record NewStandingOrder =
  nso_Type :: string
  nso_Quantity :: float64
  nso_LimitPrice :: float64
  nso_WebhookURL :: string

record MarketOrder =
  mo_Quantity :: float64
  mo_Type :: string

record MarketOrderOutcome =
  out_Quantity :: float64
  out_AveragePrice :: float64

record BalanceUpdate =
  TopupAmount :: float64
  Currency :: string

text \<open>The zero value of the Go struct \<open>User\<close>.\<close>

definition zero_User :: User where
  "zero_User = \<lparr>User.ID = [], Token = [], USDCentsBalance = 0, BTCSatoshiBalance = 0\<rparr>"

text \<open>
  Errors. The first three are the error values the source declares; \<open>ErrRecordNotFound\<close>
  is GORM's; \<open>storage_error\<close> is any other error a database call reports. A panic that
  leaves a function is \<open>unhandled\<close>; \<open>BuySatoshis\<close> and \<open>SellSatoshis\<close> recover it and
  return it as an error, \<open>recovered\<close>. \<open>non_finite_conversion\<close> marks an execution that
  converts an infinity or NaN to \<open>int64\<close>: Go leaves the value of that conversion to the
  implementation, and the model does not follow the execution further.
\<close>

datatype panic = storage_write_failed | nil_response_dereferenced

datatype error =
    NO_MATCHING_STANDING_ORDERS
  | PERMISSION_DENIED
  | INSUFFICIENT_BALANCE
  | ErrRecordNotFound
  | storage_error
  | unhandled panic
  | recovered panic
  | non_finite_conversion

subsection \<open>Numeric conversions\<close>

text \<open>\<open>float64(i)\<close> for an \<open>int64\<close> \<open>i\<close>.\<close>

definition to_float64 :: "int \<Rightarrow> float64" where
  "to_float64 i = of_int i"

text \<open>\<open>int64(x)\<close> for a finite \<open>float64\<close> \<open>x\<close>: the fraction is discarded (truncation
  towards zero).\<close>

definition int64 :: "float64 \<Rightarrow> int" where
  "int64 x = (if 0 \<le> x then \<lfloor>x\<rfloor> else \<lceil>x\<rceil>)"

text \<open>\<open>int64(float64(a) / p)\<close>: the quotient is an infinity or NaN when \<open>p\<close> is zero.\<close>

definition int64_quotient :: "int \<Rightarrow> float64 \<Rightarrow> int option" where
  "int64_quotient a p = (if p = 0 then None else Some (int64 (to_float64 a / p)))"

text \<open>The running volume-weighted mean \<open>(avg * float64(n) + x) / float64(m)\<close>.\<close>

definition weighted_mean :: "float64 option \<Rightarrow> int \<Rightarrow> float64 \<Rightarrow> int \<Rightarrow> float64 option" where
  "weighted_mean avg n x m =
     (case avg of
        None \<Rightarrow> None
      | Some a \<Rightarrow> if m = 0 then None else Some ((a * to_float64 n + x) / to_float64 m))"

section \<open>The ledger store and its environment\<close>

text \<open>
  \<open>DB\<close> is the committed database, \<open>tx\<close> the view of the open transaction (it sees its
  own writes). \<open>next_id\<close> is the sequence behind the primary key of \<open>standing_orders\<close>.
  \<open>faults\<close> is the environment's schedule for the calls that leave the process (a
  database statement, a commit, an HTTP POST): each call takes the head of the list, and
  \<open>True\<close> makes that call fail; when the list is empty every call succeeds. \<open>trace\<close>
  records the transaction boundaries and the webhook requests in the order they happen.
  \<open>spawned\<close> holds the goroutines started by \<open>go user.ExecuteStandingOrder(standingOrder)\<close>
  that have not run yet, each with the in-memory user and order it was given.
\<close>

record db =
  users :: "User list"
  standing_orders :: "StandingOrder list"

datatype event = TxBegin | TxCommit | TxRollback | WebhookPost string int

record world =
  DB :: db
  tx :: db
  next_id :: int
  faults :: "bool list"
  trace :: "event list"
  spawned :: "(User \<times> StandingOrder) list"

definition external_call :: "world \<Rightarrow> bool \<times> world" where
  "external_call w =
     (case faults w of
        [] \<Rightarrow> (True, w)
      | f # fs \<Rightarrow> (\<not> f, w\<lparr>faults := fs\<rparr>))"

definition Begin :: "world \<Rightarrow> world" where
  "Begin w = w\<lparr>tx := DB w, trace := trace w @ [TxBegin]\<rparr>"

definition Rollback :: "world \<Rightarrow> world" where
  "Rollback w = w\<lparr>tx := DB w, trace := trace w @ [TxRollback]\<rparr>"

definition Commit :: "world \<Rightarrow> bool \<times> world" where
  "Commit w =
     (case external_call w of
        (False, w1) \<Rightarrow> (False, w1)
      | (True, w1) \<Rightarrow> (True, w1\<lparr>DB := tx w1, trace := trace w1 @ [TxCommit]\<rparr>))"

text \<open>
  \<open>tx.Save(x)\<close> writes every column of the row whose primary key is that of \<open>x\<close>, and
  inserts the row when there is none. The table \<open>standing_orders\<close> has no column for the
  association \<open>User\<close>: a stored row carries the zero user.
\<close>

definition upsert_user :: "User \<Rightarrow> User list \<Rightarrow> User list" where
  "upsert_user u us =
     (if User.ID u \<in> set (map User.ID us)
      then map (\<lambda>x. if User.ID x = User.ID u then u else x) us
      else us @ [u])"

definition upsert_order :: "StandingOrder \<Rightarrow> StandingOrder list \<Rightarrow> StandingOrder list" where
  "upsert_order so sos =
     (if ID so \<in> set (map ID sos)
      then map (\<lambda>x. if ID x = ID so then so\<lparr>User := zero_User\<rparr> else x) sos
      else sos @ [so\<lparr>User := zero_User\<rparr>])"

definition Save_user :: "User \<Rightarrow> world \<Rightarrow> bool \<times> world" where
  "Save_user u w =
     (case external_call w of
        (False, w1) \<Rightarrow> (False, w1)
      | (True, w1) \<Rightarrow> (True, w1\<lparr>tx := (tx w1)\<lparr>users := upsert_user u (users (tx w1))\<rparr>\<rparr>))"

definition Save_order :: "StandingOrder \<Rightarrow> world \<Rightarrow> bool \<times> world" where
  "Save_order so w =
     (case external_call w of
        (False, w1) \<Rightarrow> (False, w1)
      | (True, w1) \<Rightarrow>
          (True, w1\<lparr>tx := (tx w1)\<lparr>standing_orders := upsert_order so (standing_orders (tx w1))\<rparr>\<rparr>))"

text \<open>
  \<open>PerformWebhookRequest\<close>: nothing when the order has no webhook URL; otherwise an HTTP
  POST of the order's identifier. When the POST fails the source logs the error and then
  calls \<open>response.Body.Close()\<close> on a nil response, which panics.
\<close>

definition PerformWebhookRequest :: "StandingOrder \<Rightarrow> world \<Rightarrow> bool \<times> world" where
  "PerformWebhookRequest so w =
     (if WebhookURL so = [] then (True, w)
      else
        (case external_call w of
           (False, w1) \<Rightarrow> (False, w1)
         | (True, w1) \<Rightarrow> (True, w1\<lparr>trace := trace w1 @ [WebhookPost (WebhookURL so) (ID so)]\<rparr>)))"

section \<open>Settlement of one fragment\<close>

text \<open>
  \<open>BuyViaStandingOrder\<close> and \<open>SellViaStandingOrder\<close>. \<open>user\<close> is the in-memory struct
  of the demanding user (the source mutates it through a pointer; the model returns it).
  The counterparty is \<open>standingOrder.User\<close>, the copy that \<open>Preload("User")\<close> made when
  the page was fetched. The three writes panic on a storage error.
\<close>

definition settle_order :: "StandingOrder \<Rightarrow> int \<Rightarrow> float64 \<Rightarrow> StandingOrder" where
  "settle_order so satisfiedSatoshiAmount transactionUsdCentsAmountFloat =
     (let so1 = so\<lparr>AveragePrice :=
                     weighted_mean (AveragePrice so) (FulfilledQuantity so)
                       transactionUsdCentsAmountFloat
                       (FulfilledQuantity so + satisfiedSatoshiAmount),
                   FulfilledQuantity := FulfilledQuantity so + satisfiedSatoshiAmount,
                   RemainingQuantity := RemainingQuantity so - satisfiedSatoshiAmount\<rparr>
      in if RemainingQuantity so1 = 0 then so1\<lparr>State := ''FULFILLED''\<rparr> else so1)"

definition persist_fragment ::
  "world \<Rightarrow> StandingOrder \<Rightarrow> User \<Rightarrow> User \<Rightarrow> world \<times> error option" where
  "persist_fragment w so counterparty user =
     (case Save_order so w of
        (False, w1) \<Rightarrow> (w1, Some (unhandled storage_write_failed))
      | (True, w1) \<Rightarrow>
     (case Save_user counterparty w1 of
        (False, w2) \<Rightarrow> (w2, Some (unhandled storage_write_failed))
      | (True, w2) \<Rightarrow>
     (case Save_user user w2 of
        (False, w3) \<Rightarrow> (w3, Some (unhandled storage_write_failed))
      | (True, w3) \<Rightarrow>
     (case PerformWebhookRequest so w3 of
        (False, w4) \<Rightarrow> (w4, Some (unhandled nil_response_dereferenced))
      | (True, w4) \<Rightarrow> (w4, None)))))"

definition BuyViaStandingOrder ::
  "world \<Rightarrow> User \<Rightarrow> StandingOrder \<Rightarrow> int \<Rightarrow> world \<times> User \<times> (error + int \<times> int \<times> bool)" where
  "BuyViaStandingOrder w user standingOrder satoshiAmount =
     (let seller = User standingOrder in
      case int64_quotient (USDCentsBalance user) (LimitPrice standingOrder) of
        None \<Rightarrow> (w, user, Inl non_finite_conversion)
      | Some satoshiAmountBuyLimit \<Rightarrow>
          let (satisfied1, fundsExhausted1) =
                (if satoshiAmount \<ge> satoshiAmountBuyLimit then (satoshiAmountBuyLimit, True)
                 else (satoshiAmount, False));
              (satisfiedSatoshiAmount, fundsExhausted) =
                (if satisfied1 > RemainingQuantity standingOrder
                 then (RemainingQuantity standingOrder, False)
                 else (satisfied1, fundsExhausted1));
              transactionUsdCentsAmountFloat =
                to_float64 satisfiedSatoshiAmount * LimitPrice standingOrder;
              transactionUsdCentsAmount = int64 transactionUsdCentsAmountFloat;
              user' = user\<lparr>USDCentsBalance := USDCentsBalance user - transactionUsdCentsAmount,
                           BTCSatoshiBalance := BTCSatoshiBalance user + satisfiedSatoshiAmount\<rparr>;
              seller' = seller\<lparr>USDCentsBalance := USDCentsBalance seller + transactionUsdCentsAmount,
                               BTCSatoshiBalance := BTCSatoshiBalance seller - satisfiedSatoshiAmount\<rparr>;
              standingOrder' =
                settle_order standingOrder satisfiedSatoshiAmount transactionUsdCentsAmountFloat
          in (case persist_fragment w standingOrder' seller' user' of
                (w', Some e) \<Rightarrow> (w', user', Inl e)
              | (w', None) \<Rightarrow>
                  (w', user', Inr (satisfiedSatoshiAmount, transactionUsdCentsAmount, fundsExhausted))))"

definition SellViaStandingOrder ::
  "world \<Rightarrow> User \<Rightarrow> StandingOrder \<Rightarrow> int \<Rightarrow> world \<times> User \<times> (error + int \<times> int \<times> bool)" where
  "SellViaStandingOrder w user standingOrder satoshiAmount =
     (let buyer = User standingOrder;
          satoshiAmountSellLimit = BTCSatoshiBalance user;
          (satisfied1, satoshisExhausted1) =
            (if satoshiAmount \<ge> satoshiAmountSellLimit then (satoshiAmountSellLimit, True)
             else (satoshiAmount, False));
          (satisfiedSatoshiAmount, satoshisExhausted) =
            (if satisfied1 > RemainingQuantity standingOrder
             then (RemainingQuantity standingOrder, False)
             else (satisfied1, satoshisExhausted1));
          transactionUsdCentsAmountFloat =
            to_float64 satisfiedSatoshiAmount * LimitPrice standingOrder;
          transactionUsdCentsAmount = int64 transactionUsdCentsAmountFloat;
          user' = user\<lparr>USDCentsBalance := USDCentsBalance user + transactionUsdCentsAmount,
                       BTCSatoshiBalance := BTCSatoshiBalance user - satisfiedSatoshiAmount\<rparr>;
          buyer' = buyer\<lparr>USDCentsBalance := USDCentsBalance buyer - transactionUsdCentsAmount,
                         BTCSatoshiBalance := BTCSatoshiBalance buyer + satisfiedSatoshiAmount\<rparr>;
          standingOrder' =
            settle_order standingOrder satisfiedSatoshiAmount transactionUsdCentsAmountFloat
      in (case persist_fragment w standingOrder' buyer' user' of
            (w', Some e) \<Rightarrow> (w', user', Inl e)
          | (w', None) \<Rightarrow>
              (w', user', Inr (satisfiedSatoshiAmount, transactionUsdCentsAmount, satoshisExhausted))))"

section \<open>The matching scan\<close>

text \<open>
  \<open>getStandingSellOrders\<close> and \<open>getStandingBuyOrders\<close>: the LIVE orders of one type,
  filtered by the limit price when it is not zero, ordered by limit price, \<open>size\<close> rows
  from row \<open>offset\<close> on, each with its owner preloaded. SQL leaves the order of rows with
  equal limit prices open; the model keeps them in table order. A page with fewer than
  \<open>size\<close> rows is returned together with \<open>NO_MATCHING_STANDING_ORDERS\<close>.
\<close>

definition preload_User :: "db \<Rightarrow> StandingOrder \<Rightarrow> StandingOrder" where
  "preload_User d so =
     so\<lparr>User := (case find (\<lambda>u. User.ID u = UserId so) (users d) of
                    None \<Rightarrow> zero_User
                  | Some u \<Rightarrow> u)\<rparr>"

definition live_sell_orders :: "db \<Rightarrow> float64 \<Rightarrow> StandingOrder list" where
  "live_sell_orders d satoshiUsdCentsLimitPrice =
     sort_key LimitPrice
       (filter (\<lambda>so. Type so = ''SELL'' \<and> State so = ''LIVE'' \<and>
                      (satoshiUsdCentsLimitPrice = 0 \<or> LimitPrice so \<le> satoshiUsdCentsLimitPrice))
          (standing_orders d))"

definition live_buy_orders :: "db \<Rightarrow> float64 \<Rightarrow> StandingOrder list" where
  "live_buy_orders d satoshiUsdCentsLimitPrice =
     sort_key (\<lambda>so. - LimitPrice so)
       (filter (\<lambda>so. Type so = ''BUY'' \<and> State so = ''LIVE'' \<and>
                      (satoshiUsdCentsLimitPrice = 0 \<or> LimitPrice so \<ge> satoshiUsdCentsLimitPrice))
          (standing_orders d))"

definition getStandingSellOrders ::
  "world \<Rightarrow> float64 \<Rightarrow> nat \<Rightarrow> nat \<Rightarrow> world \<times> StandingOrder list \<times> error option" where
  "getStandingSellOrders w satoshiUsdCentsLimitPrice offset size0 =
     (case external_call w of
        (False, w1) \<Rightarrow> (w1, [], Some storage_error)
      | (True, w1) \<Rightarrow>
          let standingOrders =
                map (preload_User (tx w1))
                  (take size0 (drop offset (live_sell_orders (tx w1) satoshiUsdCentsLimitPrice)))
          in if length standingOrders < size0
             then (w1, standingOrders, Some NO_MATCHING_STANDING_ORDERS)
             else (w1, standingOrders, None))"

definition getStandingBuyOrders ::
  "world \<Rightarrow> float64 \<Rightarrow> nat \<Rightarrow> nat \<Rightarrow> world \<times> StandingOrder list \<times> error option" where
  "getStandingBuyOrders w satoshiUsdCentsLimitPrice offset size0 =
     (case external_call w of
        (False, w1) \<Rightarrow> (w1, [], Some storage_error)
      | (True, w1) \<Rightarrow>
          let standingOrders =
                map (preload_User (tx w1))
                  (take size0 (drop offset (live_buy_orders (tx w1) satoshiUsdCentsLimitPrice)))
          in if length standingOrders < size0
             then (w1, standingOrders, Some NO_MATCHING_STANDING_ORDERS)
             else (w1, standingOrders, None))"

text \<open>
  The inner loop of \<open>BuySatoshis\<close> over one page. It carries the three accumulators
  \<open>usdCentsAmount\<close>, \<open>satisfiedSatoshiAmount\<close> and \<open>remainingSatoshiAmount\<close> and
  says how it ended: the range ran out or \<open>break\<close> left it (\<open>page_done\<close>),
  \<open>break outerLoop\<close>, or a fragment did not return.
\<close>

datatype page_exit = page_done | break_outerLoop | page_failed error

fun BuySatoshis_page ::
  "world \<Rightarrow> User \<Rightarrow> StandingOrder list \<Rightarrow> int \<Rightarrow> int \<Rightarrow> int
     \<Rightarrow> world \<times> User \<times> (int \<times> int \<times> int) \<times> page_exit" where
  "BuySatoshis_page w user [] usdCentsAmount satisfiedSatoshiAmount remainingSatoshiAmount =
     (w, user, (usdCentsAmount, satisfiedSatoshiAmount, remainingSatoshiAmount), page_done)"
| "BuySatoshis_page w user (standingOrder # rest) usdCentsAmount satisfiedSatoshiAmount
       remainingSatoshiAmount =
     (case BuyViaStandingOrder w user standingOrder remainingSatoshiAmount of
        (w', user', Inl e) \<Rightarrow>
          (w', user', (usdCentsAmount, satisfiedSatoshiAmount, remainingSatoshiAmount),
           page_failed e)
      | (w', user', Inr (satisfiedSatoshiAmountFromOrder, transactionUsdCentsAmount,
                         fundsExhausted)) \<Rightarrow>
          let usdCentsAmount' = usdCentsAmount + transactionUsdCentsAmount;
              satisfiedSatoshiAmount' = satisfiedSatoshiAmount + satisfiedSatoshiAmountFromOrder;
              remainingSatoshiAmount' = remainingSatoshiAmount - satisfiedSatoshiAmountFromOrder
          in if remainingSatoshiAmount' = 0
             then (w', user', (usdCentsAmount', satisfiedSatoshiAmount', remainingSatoshiAmount'),
                   page_done)
             else if fundsExhausted
             then (w', user', (usdCentsAmount', satisfiedSatoshiAmount', remainingSatoshiAmount'),
                   break_outerLoop)
             else BuySatoshis_page w' user' rest usdCentsAmount' satisfiedSatoshiAmount'
                    remainingSatoshiAmount')"

fun SellSatoshis_page ::
  "world \<Rightarrow> User \<Rightarrow> StandingOrder list \<Rightarrow> int \<Rightarrow> int \<Rightarrow> int
     \<Rightarrow> world \<times> User \<times> (int \<times> int \<times> int) \<times> page_exit" where
  "SellSatoshis_page w user [] usdCentsAmount satisfiedSatoshiAmount remainingSatoshiAmount =
     (w, user, (usdCentsAmount, satisfiedSatoshiAmount, remainingSatoshiAmount), page_done)"
| "SellSatoshis_page w user (standingOrder # rest) usdCentsAmount satisfiedSatoshiAmount
       remainingSatoshiAmount =
     (case SellViaStandingOrder w user standingOrder remainingSatoshiAmount of
        (w', user', Inl e) \<Rightarrow>
          (w', user', (usdCentsAmount, satisfiedSatoshiAmount, remainingSatoshiAmount),
           page_failed e)
      | (w', user', Inr (satisfiedSatoshiAmountFromOrder, transactionUsdCentsAmount,
                         satoshisExhausted)) \<Rightarrow>
          let usdCentsAmount' = usdCentsAmount + transactionUsdCentsAmount;
              satisfiedSatoshiAmount' = satisfiedSatoshiAmount + satisfiedSatoshiAmountFromOrder;
              remainingSatoshiAmount' = remainingSatoshiAmount - satisfiedSatoshiAmountFromOrder
          in if remainingSatoshiAmount' = 0
             then (w', user', (usdCentsAmount', satisfiedSatoshiAmount', remainingSatoshiAmount'),
                   page_done)
             else if satoshisExhausted
             then (w', user', (usdCentsAmount', satisfiedSatoshiAmount', remainingSatoshiAmount'),
                   break_outerLoop)
             else SellSatoshis_page w' user' rest usdCentsAmount' satisfiedSatoshiAmount'
                    remainingSatoshiAmount')"

subsection \<open>What a scan leaves of the table: the primary keys\<close>

definition order_ids :: "world \<Rightarrow> int list" where
  "order_ids w = map ID (standing_orders (tx w))"

lemma external_call_tx: "external_call w = (b, w') \<Longrightarrow> tx w' = tx w"
  by (auto simp: external_call_def split: list.splits)

lemma upsert_order_ids:
  "ID so \<in> set (map ID sos) \<Longrightarrow> map ID (upsert_order so sos) = map ID sos"
  by (induction sos) (auto simp: upsert_order_def)

lemma Save_order_ids:
  "Save_order so w = (b, w') \<Longrightarrow> ID so \<in> set (order_ids w) \<Longrightarrow> order_ids w' = order_ids w"
  by (auto simp: Save_order_def order_ids_def upsert_order_ids
      split: prod.splits bool.splits dest: external_call_tx)

lemma Save_user_ids: "Save_user u w = (b, w') \<Longrightarrow> order_ids w' = order_ids w"
  by (auto simp: Save_user_def order_ids_def split: prod.splits bool.splits
      dest: external_call_tx)

lemma PerformWebhookRequest_tx: "PerformWebhookRequest so w = (b, w') \<Longrightarrow> tx w' = tx w"
  by (auto simp: PerformWebhookRequest_def split: if_splits prod.splits bool.splits
      dest: external_call_tx)

lemma persist_fragment_ids:
  assumes "persist_fragment w so c u = (w', r)" and "ID so \<in> set (order_ids w)"
  shows "order_ids w' = order_ids w"
proof -
  obtain b1 w1 where s1: "Save_order so w = (b1, w1)" by (cases "Save_order so w")
  obtain b2 w2 where s2: "Save_user c w1 = (b2, w2)" by (cases "Save_user c w1")
  obtain b3 w3 where s3: "Save_user u w2 = (b3, w3)" by (cases "Save_user u w2")
  obtain b4 w4 where s4: "PerformWebhookRequest so w3 = (b4, w4)"
    by (cases "PerformWebhookRequest so w3")
  have i1: "order_ids w1 = order_ids w" using Save_order_ids [OF s1 assms(2)] .
  have i2: "order_ids w2 = order_ids w" using Save_user_ids [OF s2] i1 by simp
  have i3: "order_ids w3 = order_ids w" using Save_user_ids [OF s3] i2 by simp
  have i4: "order_ids w4 = order_ids w"
    using PerformWebhookRequest_tx [OF s4] i3 by (simp add: order_ids_def)
  from assms(1) have "w' = w1 \<or> w' = w2 \<or> w' = w3 \<or> w' = w4"
    by (auto simp: persist_fragment_def s1 s2 s3 s4 split: bool.splits)
  with i1 i2 i3 i4 show ?thesis by auto
qed

lemma settle_order_ID: "ID (settle_order so q x) = ID so"
  by (simp add: settle_order_def Let_def)

lemma BuyViaStandingOrder_ids:
  assumes "BuyViaStandingOrder w user so n = (w', r)" and "ID so \<in> set (order_ids w)"
  shows "order_ids w' = order_ids w"
  using assms
  by (auto simp: BuyViaStandingOrder_def Let_def settle_order_ID
      split: option.splits prod.splits if_splits dest!: persist_fragment_ids)

lemma SellViaStandingOrder_ids:
  assumes "SellViaStandingOrder w user so n = (w', r)" and "ID so \<in> set (order_ids w)"
  shows "order_ids w' = order_ids w"
  using assms
  by (auto simp: SellViaStandingOrder_def Let_def settle_order_ID
      split: option.splits prod.splits if_splits dest!: persist_fragment_ids)

lemma BuySatoshis_page_ids:
  "BuySatoshis_page w user sos a b c = (w', r) \<Longrightarrow> set (map ID sos) \<subseteq> set (order_ids w)
     \<Longrightarrow> order_ids w' = order_ids w"
proof (induction sos arbitrary: w user a b c)
  case Nil
  then show ?case by simp
next
  case (Cons so sos)
  obtain w1 u1 r1 where f: "BuyViaStandingOrder w user so c = (w1, u1, r1)"
    by (cases "BuyViaStandingOrder w user so c") auto
  have i: "order_ids w1 = order_ids w"
    using BuyViaStandingOrder_ids [OF f] Cons.prems(2) by simp
  show ?case
  proof (cases r1)
    case (Inl e)
    with Cons.prems(1) f i show ?thesis by simp
  next
    case (Inr t)
    obtain q x ex where t: "t = (q, x, ex)" by (cases t)
    show ?thesis
    proof (cases "c - q = 0 \<or> ex")
      case True
      with Cons.prems(1) f i Inr t show ?thesis by (auto simp: Let_def split: if_splits)
    next
      case False
      with Cons.prems(1) f Inr t
      have "BuySatoshis_page w1 u1 sos (a + x) (b + q) (c - q) = (w', r)"
        by (simp add: Let_def)
      from Cons.IH [OF this] Cons.prems(2) i show ?thesis by simp
    qed
  qed
qed

lemma SellSatoshis_page_ids:
  "SellSatoshis_page w user sos a b c = (w', r) \<Longrightarrow> set (map ID sos) \<subseteq> set (order_ids w)
     \<Longrightarrow> order_ids w' = order_ids w"
proof (induction sos arbitrary: w user a b c)
  case Nil
  then show ?case by simp
next
  case (Cons so sos)
  obtain w1 u1 r1 where f: "SellViaStandingOrder w user so c = (w1, u1, r1)"
    by (cases "SellViaStandingOrder w user so c") auto
  have i: "order_ids w1 = order_ids w"
    using SellViaStandingOrder_ids [OF f] Cons.prems(2) by simp
  show ?case
  proof (cases r1)
    case (Inl e)
    with Cons.prems(1) f i show ?thesis by simp
  next
    case (Inr t)
    obtain q x ex where t: "t = (q, x, ex)" by (cases t)
    show ?thesis
    proof (cases "c - q = 0 \<or> ex")
      case True
      with Cons.prems(1) f i Inr t show ?thesis by (auto simp: Let_def split: if_splits)
    next
      case False
      with Cons.prems(1) f Inr t
      have "SellSatoshis_page w1 u1 sos (a + x) (b + q) (c - q) = (w', r)"
        by (simp add: Let_def)
      from Cons.IH [OF this] Cons.prems(2) i show ?thesis by simp
    qed
  qed
qed

lemma preload_User_ID: "ID (preload_User d so) = ID so"
  by (simp add: preload_User_def)

lemma getStandingSellOrders_page:
  assumes "getStandingSellOrders w p offset size0 = (w1, sos, err)"
  shows "order_ids w1 = order_ids w"
    and "set (map ID sos) \<subseteq> set (order_ids w)"
    and "err = None \<Longrightarrow> 0 < size0 \<Longrightarrow> offset + size0 \<le> length (order_ids w)"
proof -
  obtain b w0 where e: "external_call w = (b, w0)" by (cases "external_call w")
  have t: "tx w0 = tx w" using external_call_tx [OF e] .
  let ?rows = "live_sell_orders (tx w) p"
  have len: "length ?rows \<le> length (order_ids w)"
    by (simp add: live_sell_orders_def order_ids_def)
  have sub: "set ?rows \<subseteq> set (standing_orders (tx w))"
    by (auto simp: live_sell_orders_def)
  from assms e t show "order_ids w1 = order_ids w"
    by (auto simp: getStandingSellOrders_def order_ids_def Let_def
        split: bool.splits if_splits)
  have "sos = [] \<or> sos = map (preload_User (tx w)) (take size0 (drop offset ?rows))"
    using assms e t
    by (auto simp: getStandingSellOrders_def Let_def split: bool.splits if_splits)
  moreover have "\<And>x. x \<in> set (take size0 (drop offset ?rows)) \<Longrightarrow> ID x \<in> set (order_ids w)"
    using sub by (auto simp: order_ids_def dest!: in_set_takeD in_set_dropD)
  ultimately show "set (map ID sos) \<subseteq> set (order_ids w)"
    by (auto simp: preload_User_ID)
  assume "err = None" and pos: "0 < size0"
  with assms e t have "size0 \<le> length (take size0 (drop offset ?rows))"
    by (auto simp: getStandingSellOrders_def Let_def split: bool.splits if_splits)
  with len pos show "offset + size0 \<le> length (order_ids w)" by simp
qed

lemma getStandingBuyOrders_page:
  assumes "getStandingBuyOrders w p offset size0 = (w1, sos, err)"
  shows "order_ids w1 = order_ids w"
    and "set (map ID sos) \<subseteq> set (order_ids w)"
    and "err = None \<Longrightarrow> 0 < size0 \<Longrightarrow> offset + size0 \<le> length (order_ids w)"
proof -
  obtain b w0 where e: "external_call w = (b, w0)" by (cases "external_call w")
  have t: "tx w0 = tx w" using external_call_tx [OF e] .
  let ?rows = "live_buy_orders (tx w) p"
  have len: "length ?rows \<le> length (order_ids w)"
    by (simp add: live_buy_orders_def order_ids_def)
  have sub: "set ?rows \<subseteq> set (standing_orders (tx w))"
    by (auto simp: live_buy_orders_def)
  from assms e t show "order_ids w1 = order_ids w"
    by (auto simp: getStandingBuyOrders_def order_ids_def Let_def
        split: bool.splits if_splits)
  have "sos = [] \<or> sos = map (preload_User (tx w)) (take size0 (drop offset ?rows))"
    using assms e t
    by (auto simp: getStandingBuyOrders_def Let_def split: bool.splits if_splits)
  moreover have "\<And>x. x \<in> set (take size0 (drop offset ?rows)) \<Longrightarrow> ID x \<in> set (order_ids w)"
    using sub by (auto simp: order_ids_def dest!: in_set_takeD in_set_dropD)
  ultimately show "set (map ID sos) \<subseteq> set (order_ids w)"
    by (auto simp: preload_User_ID)
  assume "err = None" and pos: "0 < size0"
  with assms e t have "size0 \<le> length (take size0 (drop offset ?rows))"
    by (auto simp: getStandingBuyOrders_def Let_def split: bool.splits if_splits)
  with len pos show "offset + size0 \<le> length (order_ids w)" by simp
qed

subsection \<open>The scan over the pages\<close>

text \<open>
  The outer loop of \<open>BuySatoshis\<close> and \<open>SellSatoshis\<close>:
  \<open>for offset := 0; remainingSatoshiAmount > 0; offset += size\<close>, with \<open>size = 10\<close>.
  Each round queries the open transaction again, so it sees what the rounds before it
  wrote. The loop ends: a further round needs a full page at an offset ten rows further
  into a table that does not grow.
\<close>

function BuySatoshis_loop ::
  "world \<Rightarrow> User \<Rightarrow> float64 \<Rightarrow> nat \<Rightarrow> int \<Rightarrow> int \<Rightarrow> int
     \<Rightarrow> world \<times> User \<times> (int \<times> int \<times> int) \<times> error option" where
  "BuySatoshis_loop w user satoshiUsdCentsLimitPrice offset usdCentsAmount satisfiedSatoshiAmount
       remainingSatoshiAmount =
     (if remainingSatoshiAmount > 0 then
        (case getStandingSellOrders w satoshiUsdCentsLimitPrice offset 10 of
           (w1, standingOrders, err) \<Rightarrow>
             if err \<noteq> None \<and> err \<noteq> Some NO_MATCHING_STANDING_ORDERS
             then (w1, user, (usdCentsAmount, satisfiedSatoshiAmount, remainingSatoshiAmount), err)
             else
               (case BuySatoshis_page w1 user standingOrders usdCentsAmount
                       satisfiedSatoshiAmount remainingSatoshiAmount of
                  (w2, user2, (usd2, sat2, rem2), ex) \<Rightarrow>
                    (case ex of
                       page_failed e \<Rightarrow> (w2, user2, (usd2, sat2, rem2), Some e)
                     | break_outerLoop \<Rightarrow> (w2, user2, (usd2, sat2, rem2), None)
                     | page_done \<Rightarrow>
                         if err = Some NO_MATCHING_STANDING_ORDERS
                         then (w2, user2, (usd2, sat2, rem2), None)
                         else BuySatoshis_loop w2 user2 satoshiUsdCentsLimitPrice (offset + 10)
                                usd2 sat2 rem2)))
      else (w, user, (usdCentsAmount, satisfiedSatoshiAmount, remainingSatoshiAmount), None))"
  by pat_completeness auto
termination
proof (relation "measure (\<lambda>(w, user, p, offset, a, b, c). length (order_ids w) - offset)",
    goal_cases)
  case 1
  show ?case by simp
next
  case (2 w user p offset a b c x y xa ya xb yb xc yc xd yd xe ye xf yf)
  from 2(4,11) have en: "ya = None" by auto
  from 2(2,3) en have q: "getStandingSellOrders w p offset 10 = (x, xa, None)"
    by (metis prod.collapse prod.inject)
  from 2(5) have pg: "BuySatoshis_page x user xa a b c = (xb, yb)" by simp
  have "order_ids xb = order_ids x"
    using BuySatoshis_page_ids [OF pg] getStandingSellOrders_page(1,2) [OF q] by simp
  then have "order_ids xb = order_ids w" using getStandingSellOrders_page(1) [OF q] by simp
  moreover have "offset + 10 \<le> length (order_ids w)"
    using getStandingSellOrders_page(3) [OF q] by simp
  ultimately show ?case by simp
qed

function SellSatoshis_loop ::
  "world \<Rightarrow> User \<Rightarrow> float64 \<Rightarrow> nat \<Rightarrow> int \<Rightarrow> int \<Rightarrow> int
     \<Rightarrow> world \<times> User \<times> (int \<times> int \<times> int) \<times> error option" where
  "SellSatoshis_loop w user satoshiUsdCentsLimitPrice offset usdCentsAmount satisfiedSatoshiAmount
       remainingSatoshiAmount =
     (if remainingSatoshiAmount > 0 then
        (case getStandingBuyOrders w satoshiUsdCentsLimitPrice offset 10 of
           (w1, standingOrders, err) \<Rightarrow>
             if err \<noteq> None \<and> err \<noteq> Some NO_MATCHING_STANDING_ORDERS
             then (w1, user, (usdCentsAmount, satisfiedSatoshiAmount, remainingSatoshiAmount), err)
             else
               (case SellSatoshis_page w1 user standingOrders usdCentsAmount
                       satisfiedSatoshiAmount remainingSatoshiAmount of
                  (w2, user2, (usd2, sat2, rem2), ex) \<Rightarrow>
                    (case ex of
                       page_failed e \<Rightarrow> (w2, user2, (usd2, sat2, rem2), Some e)
                     | break_outerLoop \<Rightarrow> (w2, user2, (usd2, sat2, rem2), None)
                     | page_done \<Rightarrow>
                         if err = Some NO_MATCHING_STANDING_ORDERS
                         then (w2, user2, (usd2, sat2, rem2), None)
                         else SellSatoshis_loop w2 user2 satoshiUsdCentsLimitPrice (offset + 10)
                                usd2 sat2 rem2)))
      else (w, user, (usdCentsAmount, satisfiedSatoshiAmount, remainingSatoshiAmount), None))"
  by pat_completeness auto
termination
proof (relation "measure (\<lambda>(w, user, p, offset, a, b, c). length (order_ids w) - offset)",
    goal_cases)
  case 1
  show ?case by simp
next
  case (2 w user p offset a b c x y xa ya xb yb xc yc xd yd xe ye xf yf)
  from 2(4,11) have en: "ya = None" by auto
  from 2(2,3) en have q: "getStandingBuyOrders w p offset 10 = (x, xa, None)"
    by (metis prod.collapse prod.inject)
  from 2(5) have pg: "SellSatoshis_page x user xa a b c = (xb, yb)" by simp
  have "order_ids xb = order_ids x"
    using SellSatoshis_page_ids [OF pg] getStandingBuyOrders_page(1,2) [OF q] by simp
  then have "order_ids xb = order_ids w" using getStandingBuyOrders_page(1) [OF q] by simp
  moreover have "offset + 10 \<le> length (order_ids w)"
    using getStandingBuyOrders_page(3) [OF q] by simp
  ultimately show ?case by simp
qed

declare BuySatoshis_loop.simps [simp del] SellSatoshis_loop.simps [simp del]

text \<open>
  \<open>BuySatoshis\<close> and \<open>SellSatoshis\<close> after the loop. A storage error of the query
  returns \<open>0, 0, err\<close>; a panic of a fragment is recovered by the deferred function,
  which replaces \<open>err\<close> and leaves the other named results as they were. \<open>Buy\<close> and
  \<open>Sell\<close> convert between major and minor units.
\<close>

definition BuySatoshis ::
  "world \<Rightarrow> User \<Rightarrow> int \<Rightarrow> float64 \<Rightarrow> world \<times> User \<times> int \<times> float64 \<times> error option" where
  "BuySatoshis w user remainingSatoshiAmount satoshiUsdCentsLimitPrice =
     (case BuySatoshis_loop w user satoshiUsdCentsLimitPrice 0 0 0 remainingSatoshiAmount of
        (w', user', (usdCentsAmount, satisfiedSatoshiAmount, remaining'), err) \<Rightarrow>
          (case err of
             Some (unhandled p) \<Rightarrow> (w', user', satisfiedSatoshiAmount, 0, Some (recovered p))
           | Some e \<Rightarrow> (w', user', 0, 0, Some e)
           | None \<Rightarrow>
               if satisfiedSatoshiAmount = 0
               then (w', user', 0, 0, Some NO_MATCHING_STANDING_ORDERS)
               else (w', user', satisfiedSatoshiAmount,
                     to_float64 usdCentsAmount / to_float64 satisfiedSatoshiAmount, None)))"

definition Buy ::
  "world \<Rightarrow> User \<Rightarrow> float64 \<Rightarrow> float64 \<Rightarrow> world \<times> User \<times> float64 \<times> float64 \<times> error option" where
  "Buy w user amount limitPrice =
     (let remainingSatoshiAmount = int64 (amount * 100000000);
          satoshiUsdCentsLimitPrice = limitPrice / 1000000
      in case BuySatoshis w user remainingSatoshiAmount satoshiUsdCentsLimitPrice of
           (w', user', satisfiedSatoshiAmount, averageSatoshiUsdCentsPrice, err) \<Rightarrow>
             (w', user', to_float64 satisfiedSatoshiAmount / 100000000,
              averageSatoshiUsdCentsPrice * 1000000, err))"

definition SellSatoshis ::
  "world \<Rightarrow> User \<Rightarrow> int \<Rightarrow> float64 \<Rightarrow> world \<times> User \<times> int \<times> float64 \<times> error option" where
  "SellSatoshis w user remainingSatoshiAmount satoshiUsdCentsLimitPrice =
     (case SellSatoshis_loop w user satoshiUsdCentsLimitPrice 0 0 0 remainingSatoshiAmount of
        (w', user', (usdCentsAmount, satisfiedSatoshiAmount, remaining'), err) \<Rightarrow>
          (case err of
             Some (unhandled p) \<Rightarrow> (w', user', satisfiedSatoshiAmount, 0, Some (recovered p))
           | Some e \<Rightarrow> (w', user', 0, 0, Some e)
           | None \<Rightarrow>
               if satisfiedSatoshiAmount = 0
               then (w', user', 0, 0, Some NO_MATCHING_STANDING_ORDERS)
               else (w', user', satisfiedSatoshiAmount,
                     to_float64 usdCentsAmount / to_float64 satisfiedSatoshiAmount, None)))"

definition Sell ::
  "world \<Rightarrow> User \<Rightarrow> float64 \<Rightarrow> float64 \<Rightarrow> world \<times> User \<times> float64 \<times> float64 \<times> error option" where
  "Sell w user amount limitPrice =
     (let remainingSatoshiAmount = int64 (amount * 100000000);
          satoshiUsdCentsLimitPrice = limitPrice / 1000000
      in case SellSatoshis w user remainingSatoshiAmount satoshiUsdCentsLimitPrice of
           (w', user', satisfiedSatoshiAmount, averageSatoshiUsdCentsPrice, err) \<Rightarrow>
             (w', user', to_float64 satisfiedSatoshiAmount / 100000000,
              averageSatoshiUsdCentsPrice * 1000000, err))"

section \<open>Standing orders\<close>

text \<open>
  \<open>getStandingOrderFromDb\<close> takes the handle it reads through: the open transaction
  \<open>tx\<close>, or \<open>DB\<close> itself (in \<open>GetStandingOrder\<close>).
\<close>

definition getStandingOrderFromDb ::
  "(world \<Rightarrow> db) \<Rightarrow> world \<Rightarrow> int \<Rightarrow> world \<times> (error + StandingOrder)" where
  "getStandingOrderFromDb handle w id0 =
     (case external_call w of
        (False, w1) \<Rightarrow> (w1, Inl storage_error)
      | (True, w1) \<Rightarrow>
          (case find (\<lambda>so. ID so = id0) (standing_orders (handle w1)) of
             None \<Rightarrow> (w1, Inl ErrRecordNotFound)
           | Some so \<Rightarrow> (w1, Inr so)))"

definition GetStandingOrder :: "world \<Rightarrow> User \<Rightarrow> int \<Rightarrow> world \<times> (error + StandingOrder)" where
  "GetStandingOrder w user id0 = getStandingOrderFromDb DB w id0"

definition DeleteStandingOrder :: "world \<Rightarrow> User \<Rightarrow> int \<Rightarrow> world \<times> error option" where
  "DeleteStandingOrder w user id0 =
     (case getStandingOrderFromDb tx (Begin w) id0 of
        (w1, Inl e) \<Rightarrow> (Rollback w1, Some e)
      | (w1, Inr standingOrder) \<Rightarrow>
          if UserId standingOrder \<noteq> User.ID user then (Rollback w1, Some PERMISSION_DENIED)
          else
            let standingOrder' = standingOrder\<lparr>State := ''CANCELLED''\<rparr> in
            (case Save_order standingOrder' w1 of
               (False, w2) \<Rightarrow> (Rollback w2, Some storage_error)
             | (True, w2) \<Rightarrow>
            (case Commit w2 of
               (False, w3) \<Rightarrow> (Rollback w3, Some storage_error)
             | (True, w3) \<Rightarrow>
            (case PerformWebhookRequest standingOrder' w3 of
               (False, w4) \<Rightarrow> (w4, Some (unhandled nil_response_dereferenced))
             | (True, w4) \<Rightarrow> (w4, None)))))"

text \<open>
  The pledges. A struct condition of GORM uses the fields that are not zero, so an empty
  user identifier would drop the condition on the owner.
\<close>

definition GetBlockedUsdCents :: "world \<Rightarrow> User \<Rightarrow> world \<times> int \<times> error option" where
  "GetBlockedUsdCents w user =
     (case external_call w of
        (False, w1) \<Rightarrow> (w1, 0, Some storage_error)
      | (True, w1) \<Rightarrow>
          (w1,
           sum_list
             (map (\<lambda>standingOrder.
                     int64 (to_float64 (RemainingQuantity standingOrder) * LimitPrice standingOrder))
                (filter (\<lambda>so. Type so = ''BUY'' \<and> State so = ''LIVE'' \<and>
                               (User.ID user = [] \<or> UserId so = User.ID user))
                   (standing_orders (tx w1)))),
           None))"

definition GetBlockedSatoshis :: "world \<Rightarrow> User \<Rightarrow> world \<times> int \<times> error option" where
  "GetBlockedSatoshis w user =
     (case external_call w of
        (False, w1) \<Rightarrow> (w1, 0, Some storage_error)
      | (True, w1) \<Rightarrow>
          (w1,
           sum_list
             (map RemainingQuantity
                (filter (\<lambda>so. Type so = ''SELL'' \<and> State so = ''LIVE'' \<and>
                               (User.ID user = [] \<or> UserId so = User.ID user))
                   (standing_orders (tx w1)))),
           None))"

text \<open>
  \<open>ExecuteStandingOrder\<close> runs in its own goroutine, on the user and the order that
  \<open>CreateStandingOrder\<close> held in memory. Its update of the order is the one
  \<open>settle_order\<close> makes, with \<open>averageSatoshiUsdCentsPrice * float64(satisfiedSatoshiAmount)\<close>
  for the amount.
\<close>

definition ExecuteStandingOrder :: "world \<Rightarrow> User \<Rightarrow> StandingOrder \<Rightarrow> world \<times> error option" where
  "ExecuteStandingOrder w user standingOrder =
     (case (if Type standingOrder = ''BUY''
            then BuySatoshis (Begin w) user (RemainingQuantity standingOrder)
                   (LimitPrice standingOrder)
            else SellSatoshis (Begin w) user (RemainingQuantity standingOrder)
                   (LimitPrice standingOrder)) of
        (w1, user', satisfiedSatoshiAmount, averageSatoshiUsdCentsPrice, err) \<Rightarrow>
          if err = Some NO_MATCHING_STANDING_ORDERS then (Rollback w1, None)
          else if err \<noteq> None then (Rollback w1, err)
          else
            let standingOrder' =
                  settle_order standingOrder satisfiedSatoshiAmount
                    (averageSatoshiUsdCentsPrice * to_float64 satisfiedSatoshiAmount) in
            (case Save_order standingOrder' w1 of
               (False, w2) \<Rightarrow> (Rollback w2, Some storage_error)
             | (True, w2) \<Rightarrow>
            (case Commit w2 of
               (False, w3) \<Rightarrow> (Rollback w3, Some storage_error)
             | (True, w3) \<Rightarrow>
            (case PerformWebhookRequest standingOrder' w3 of
               (False, w4) \<Rightarrow> (w4, Some (unhandled nil_response_dereferenced))
             | (True, w4) \<Rightarrow> (w4, None)))))"

text \<open>
  \<open>CreateStandingOrder\<close>. \<open>insert_standing_order\<close> is its second half, from
  \<open>tx.Create\<close> on, which the two branches of the admission check share. The database
  assigns the identifier. The \<open>go\<close> statement adds a goroutine to \<open>spawned\<close>.
\<close>

definition insert_standing_order ::
  "world \<Rightarrow> User \<Rightarrow> NewStandingOrder \<Rightarrow> int \<Rightarrow> float64 \<Rightarrow> string
     \<Rightarrow> world \<times> StandingOrder option \<times> error option" where
  "insert_standing_order w user newStandingOrder satoshiAmount limitUsdCentsSatoshiPrice state =
     (case external_call w of
        (False, w1) \<Rightarrow> (Rollback w1, None, Some storage_error)
      | (True, w1) \<Rightarrow>
          let standingOrder =
                \<lparr>ID = next_id w1, UserId = User.ID user, Type = nso_Type newStandingOrder,
                 State = state, LimitPrice = limitUsdCentsSatoshiPrice, AveragePrice = Some 0,
                 FulfilledQuantity = 0, RemainingQuantity = satoshiAmount,
                 WebhookURL = nso_WebhookURL newStandingOrder, User = zero_User\<rparr>;
              w2 = w1\<lparr>tx := (tx w1)\<lparr>standing_orders :=
                                       standing_orders (tx w1) @ [standingOrder]\<rparr>,
                      next_id := next_id w1 + 1\<rparr>
          in (case Commit w2 of
                (False, w3) \<Rightarrow> (Rollback w3, None, Some storage_error)
              | (True, w3) \<Rightarrow>
                  if state = ''CANCELLED''
                  then (w3, Some standingOrder, Some INSUFFICIENT_BALANCE)
                  else (w3\<lparr>spawned := spawned w3 @ [(user, standingOrder)]\<rparr>,
                        Some standingOrder, None)))"

definition CreateStandingOrder ::
  "world \<Rightarrow> User \<Rightarrow> NewStandingOrder \<Rightarrow> world \<times> StandingOrder option \<times> error option" where
  "CreateStandingOrder w user newStandingOrder =
     (let satoshiAmount = int64 (nso_Quantity newStandingOrder * 100000000);
          limitUsdCentsSatoshiPrice = nso_LimitPrice newStandingOrder / 1000000
      in if nso_Type newStandingOrder = ''BUY'' then
           (case GetBlockedUsdCents w user of
              (w1, blockedUsdCentsAmount, Some e) \<Rightarrow> (Rollback w1, None, Some e)
            | (w1, blockedUsdCentsAmount, None) \<Rightarrow>
                let availableUsdCentsAmount = USDCentsBalance user - blockedUsdCentsAmount in
                (case int64_quotient availableUsdCentsAmount limitUsdCentsSatoshiPrice of
                   None \<Rightarrow> (w1, None, Some non_finite_conversion)
                 | Some satoshiAmountBuyLimit \<Rightarrow>
                     insert_standing_order w1 user newStandingOrder satoshiAmount
                       limitUsdCentsSatoshiPrice
                       (if satoshiAmount > satoshiAmountBuyLimit then ''CANCELLED''
                        else ''LIVE'')))
         else
           (case GetBlockedSatoshis w user of
              (w1, blockedSatoshiAmount, Some e) \<Rightarrow> (Rollback w1, None, Some e)
            | (w1, blockedSatoshiAmount, None) \<Rightarrow>
                let satoshiAmountSellLimit = BTCSatoshiBalance user - blockedSatoshiAmount in
                insert_standing_order w1 user newStandingOrder satoshiAmount
                  limitUsdCentsSatoshiPrice
                  (if satoshiAmount > satoshiAmountSellLimit then ''CANCELLED'' else ''LIVE'')))"

section \<open>Users, balances and the request handlers\<close>

text \<open>
  The handlers take the decoded request: the token of the \<open>Token\<close> header and the
  decoded JSON body. A body that does not decode is answered with status 400 before
  anything is read or written, and is not modelled. A handler returns the HTTP status
  (200 when the source writes none) and the body it writes, if any. A panic that leaves a
  handler ends the request without a response: status 0.
\<close>

definition getAuthenticatedUser :: "world \<Rightarrow> string \<Rightarrow> world \<times> User option" where
  "getAuthenticatedUser w token =
     (if token = [] then (w, None)
      else
        (case external_call w of
           (False, w1) \<Rightarrow> (w1, None)
         | (True, w1) \<Rightarrow> (w1, find (\<lambda>u. Token u = token) (users (tx w1)))))"

text \<open>
  \<open>registerUser\<close>. The token of a new user is generated by the database
  (\<open>gen_random_uuid()\<close>); \<open>token\<close> is the value it generates. The column has a unique
  index.
\<close>

definition registerUser :: "world \<Rightarrow> string \<Rightarrow> string \<Rightarrow> world \<times> (error + User)" where
  "registerUser w userId token =
     (case external_call (Begin w) of
        (False, w1) \<Rightarrow> (Rollback w1, Inl storage_error)
      | (True, w1) \<Rightarrow>
          (case find (\<lambda>u. User.ID u = userId) (users (tx w1)) of
             Some found \<Rightarrow> (Rollback w1, Inr found)
           | None \<Rightarrow>
               let user = \<lparr>User.ID = userId, Token = token, USDCentsBalance = 0,
                           BTCSatoshiBalance = 0\<rparr> in
               (case external_call w1 of
                  (False, w2) \<Rightarrow> (Rollback w2, Inl storage_error)
                | (True, w2) \<Rightarrow>
                    if token \<in> set (map Token (users (tx w2)))
                    then (Rollback w2, Inl storage_error)
                    else
                      (case Commit (w2\<lparr>tx := (tx w2)\<lparr>users := users (tx w2) @ [user]\<rparr>\<rparr>) of
                         (False, w3) \<Rightarrow> (Rollback w3, Inl storage_error)
                       | (True, w3) \<Rightarrow> (w3, Inr user)))))"

definition registerUserHandler :: "world \<Rightarrow> string \<Rightarrow> string \<Rightarrow> world \<times> nat \<times> string option" where
  "registerUserHandler w userId token =
     (if userId = [] then (w, 400, None)
      else
        (case registerUser w userId token of
           (w1, Inl e) \<Rightarrow> (w1, 500, None)
         | (w1, Inr user) \<Rightarrow> (w1, 200, Some (Token user))))"

definition postBalanceHandler :: "world \<Rightarrow> User \<Rightarrow> BalanceUpdate \<Rightarrow> world \<times> nat" where
  "postBalanceHandler w user balanceUpdate =
     (if Currency balanceUpdate \<noteq> ''BTC'' \<and> Currency balanceUpdate \<noteq> ''USD''
      then (Rollback w, 400)
      else
        let user1 = (if Currency balanceUpdate = ''USD''
                     then user\<lparr>USDCentsBalance :=
                                  USDCentsBalance user + int64 (TopupAmount balanceUpdate * 100)\<rparr>
                     else user);
            user2 = (if Currency balanceUpdate = ''BTC''
                     then user1\<lparr>BTCSatoshiBalance :=
                                   BTCSatoshiBalance user1
                                     + int64 (TopupAmount balanceUpdate * 100000000)\<rparr>
                     else user1)
        in (case Save_user user2 w of
              (False, w1) \<Rightarrow> (Rollback w1, 500)
            | (True, w1) \<Rightarrow>
                (case Commit w1 of
                   (False, w2) \<Rightarrow> (Rollback w2, 500)
                 | (True, w2) \<Rightarrow> (w2, 200))))"

text \<open>\<open>balanceHandler\<close> for the method POST.\<close>

definition balanceHandler :: "world \<Rightarrow> string \<Rightarrow> BalanceUpdate \<Rightarrow> world \<times> nat" where
  "balanceHandler w token balanceUpdate =
     (case getAuthenticatedUser (Begin w) token of
        (w1, None) \<Rightarrow> (Rollback w1, 401)
      | (w1, Some user) \<Rightarrow> postBalanceHandler w1 user balanceUpdate)"

definition marketOrderHandler ::
  "world \<Rightarrow> string \<Rightarrow> MarketOrder \<Rightarrow> world \<times> nat \<times> MarketOrderOutcome option" where
  "marketOrderHandler w token marketOrder =
     (case getAuthenticatedUser (Begin w) token of
        (w1, None) \<Rightarrow> (Rollback w1, 401, None)
      | (w1, Some user) \<Rightarrow>
          if mo_Type marketOrder \<noteq> ''BUY'' \<and> mo_Type marketOrder \<noteq> ''SELL''
          then (Rollback w1, 400, None)
          else
            (case (if mo_Type marketOrder = ''BUY''
                   then Buy w1 user (mo_Quantity marketOrder) 0
                   else Sell w1 user (mo_Quantity marketOrder) 0) of
               (w2, user', satisfiedQuantity, averagePrice, err) \<Rightarrow>
                 if err = Some NO_MATCHING_STANDING_ORDERS then (Rollback w2, 409, None)
                 else if err \<noteq> None then (Rollback w2, 500, None)
                 else
                   (case Commit w2 of
                      (False, w3) \<Rightarrow> (Rollback w3, 200, None)
                    | (True, w3) \<Rightarrow>
                        (w3, 200,
                         Some \<lparr>out_Quantity = satisfiedQuantity,
                               out_AveragePrice = averagePrice\<rparr>))))"

definition postStandingOrderHandler ::
  "world \<Rightarrow> User \<Rightarrow> NewStandingOrder \<Rightarrow> world \<times> nat \<times> int option" where
  "postStandingOrderHandler w user newStandingOrder =
     (if nso_Type newStandingOrder \<noteq> ''BUY'' \<and> nso_Type newStandingOrder \<noteq> ''SELL''
      then (Rollback w, 400, None)
      else
        (case CreateStandingOrder w user newStandingOrder of
           (w1, None, err) \<Rightarrow> (w1, 500, None)
         | (w1, Some standingOrder, err) \<Rightarrow>
             if err \<noteq> None \<and> err \<noteq> Some INSUFFICIENT_BALANCE then (w1, 500, None)
             else if err = Some INSUFFICIENT_BALANCE then (w1, 409, Some (ID standingOrder))
             else (w1, 200, Some (ID standingOrder))))"

definition deleteStandingOrderHandler :: "world \<Rightarrow> User \<Rightarrow> int \<Rightarrow> world \<times> nat" where
  "deleteStandingOrderHandler w user standingOrderId =
     (case DeleteStandingOrder w user standingOrderId of
        (w1, Some ErrRecordNotFound) \<Rightarrow> (w1, 404)
      | (w1, Some PERMISSION_DENIED) \<Rightarrow> (w1, 403)
      | (w1, Some (unhandled p)) \<Rightarrow> (w1, 0)
      | (w1, Some e) \<Rightarrow> (w1, 500)
      | (w1, None) \<Rightarrow> (w1, 200))"

text \<open>\<open>standingOrderHandler\<close> for the methods POST and DELETE.\<close>

definition standingOrderHandler_POST ::
  "world \<Rightarrow> string \<Rightarrow> NewStandingOrder \<Rightarrow> world \<times> nat \<times> int option" where
  "standingOrderHandler_POST w token newStandingOrder =
     (case getAuthenticatedUser (Begin w) token of
        (w1, None) \<Rightarrow> (Rollback w1, 401, None)
      | (w1, Some user) \<Rightarrow> postStandingOrderHandler w1 user newStandingOrder)"

definition standingOrderHandler_DELETE :: "world \<Rightarrow> string \<Rightarrow> int \<Rightarrow> world \<times> nat" where
  "standingOrderHandler_DELETE w token standingOrderId =
     (case getAuthenticatedUser (Begin w) token of
        (w1, None) \<Rightarrow> (Rollback w1, 401)
      | (w1, Some user) \<Rightarrow> deleteStandingOrderHandler (Rollback w1) user standingOrderId)"

subsection \<open>Sequences of operations\<close>

text \<open>
  The server handles one request after the other; between two requests the scheduler may
  run the oldest goroutine that is waiting. \<open>serve\<close> keeps the state and drops the
  responses.
\<close>

datatype request =
    Register string string
  | PostBalance string BalanceUpdate
  | PostMarketOrder string MarketOrder
  | PostStandingOrder string NewStandingOrder
  | DeleteOrder string int
  | RunGoroutine

fun handle :: "world \<Rightarrow> request \<Rightarrow> world" where
  "handle w (Register userId token) = fst (registerUserHandler w userId token)"
| "handle w (PostBalance token balanceUpdate) = fst (balanceHandler w token balanceUpdate)"
| "handle w (PostMarketOrder token marketOrder) = fst (marketOrderHandler w token marketOrder)"
| "handle w (PostStandingOrder token newStandingOrder) =
     fst (standingOrderHandler_POST w token newStandingOrder)"
| "handle w (DeleteOrder token standingOrderId) =
     fst (standingOrderHandler_DELETE w token standingOrderId)"
| "handle w RunGoroutine =
     (case spawned w of
        [] \<Rightarrow> w
      | (user, standingOrder) # rest \<Rightarrow>
          fst (ExecuteStandingOrder (w\<lparr>spawned := rest\<rparr>) user standingOrder))"

definition serve :: "world \<Rightarrow> request list \<Rightarrow> world" where
  "serve w requests = foldl handle w requests"

definition empty_db :: db where
  "empty_db = \<lparr>users = [], standing_orders = []\<rparr>"

definition initial_world :: world where
  "initial_world =
     \<lparr>DB = empty_db, tx = empty_db, next_id = 1, faults = [], trace = [], spawned = []\<rparr>"

section \<open>Balances stay non-negative?\<close>

text \<open>
  Two users register. A tops up 1 BTC, B tops up 1000000 USD. B places a standing BUY
  order for 1 BTC at 1000000 USD/BTC and A a standing SELL order for 1 BTC at
  5000000 USD/BTC; both are admitted LIVE and neither matches the other. A then sells
  1 BTC with a market order, which B's standing order buys: the BTC that A's standing
  order pledges is gone, and the order is still LIVE. B tops up 5000000 USD and buys
  1 BTC with a market order, from A's standing order.
\<close>

definition pledged_balance_scenario :: "request list" where
  "pledged_balance_scenario =
     [Register ''A'' ''token-A'',
      Register ''B'' ''token-B'',
      PostBalance ''token-A'' \<lparr>TopupAmount = 1, Currency = ''BTC''\<rparr>,
      PostBalance ''token-B'' \<lparr>TopupAmount = 1000000, Currency = ''USD''\<rparr>,
      PostStandingOrder ''token-B''
        \<lparr>nso_Type = ''BUY'', nso_Quantity = 1, nso_LimitPrice = 1000000, nso_WebhookURL = []\<rparr>,
      RunGoroutine,
      PostStandingOrder ''token-A''
        \<lparr>nso_Type = ''SELL'', nso_Quantity = 1, nso_LimitPrice = 5000000, nso_WebhookURL = []\<rparr>,
      RunGoroutine,
      PostMarketOrder ''token-A'' \<lparr>mo_Quantity = 1, mo_Type = ''SELL''\<rparr>,
      PostBalance ''token-B'' \<lparr>TopupAmount = 5000000, Currency = ''USD''\<rparr>,
      PostMarketOrder ''token-B'' \<lparr>mo_Quantity = 1, mo_Type = ''BUY''\<rparr>]"

definition balances :: "db \<Rightarrow> (string \<times> int \<times> int) list" where
  "balances d = map (\<lambda>u. (User.ID u, USDCentsBalance u, BTCSatoshiBalance u)) (users d)"

text \<open>
  Claim C1: for every user and every operation that commits, the fiat balance and the
  crypto balance are each at least 0 in the committed state, for every sequence of
  operations from registration on. The code does not keep this: after the sequence
  above, in which every amount and quantity is positive, the committed crypto balance of
  A is -100000000 satoshis. The settlement debits the owner of the resting order without
  a check (its comment relies on the pledge being there), and a market order spends the
  total balance, pledged or not.
\<close>

theorem C1_committed_balance_negative:
  "balances (DB (serve initial_world pledged_balance_scenario)) =
     [(''A'', 600000000, - 100000000), (''B'', 0, 200000000)]"
  unfolding pledged_balance_scenario_def by code_simp

section \<open>The quantities of a fragment\<close>











section \<open>Admission of a standing order\<close>












lemma external_call_no_faults: "faults w = [] \<Longrightarrow> external_call w = (True, w)"
  by (simp add: external_call_def)







section \<open>Paging through a book that the scan itself changes\<close>

text \<open>
  A book of \<open>n\<close> resting SELL orders of \<open>n\<close> different sellers. The \<open>k\<close>-th seller
  registers, tops up 1 BTC and places a standing SELL order for
  1 BTC at \<open>k\<close> million USD/BTC, that is \<open>k\<close> cents per satoshi; the order is admitted
  LIVE, finds nothing to match and gets the identifier \<open>k\<close>. B registers and tops up
  1000000000 USD, then posts a market order to buy \<open>quantity\<close> BTC.
\<close>

definition seller :: "nat \<Rightarrow> string" where
  "seller k =
     [''S00'', ''S01'', ''S02'', ''S03'', ''S04'', ''S05'', ''S06'', ''S07'', ''S08'', ''S09'',
      ''S10'', ''S11'', ''S12'', ''S13'', ''S14'', ''S15'', ''S16'', ''S17'', ''S18'', ''S19'',
      ''S20'', ''S21''] ! k"

definition sell_order_at :: "nat \<Rightarrow> request list" where
  "sell_order_at k =
     [Register (seller k) (CHR ''T'' # seller k),
      PostBalance (CHR ''T'' # seller k) \<lparr>TopupAmount = 1, Currency = ''BTC''\<rparr>,
      PostStandingOrder (CHR ''T'' # seller k)
        \<lparr>nso_Type = ''SELL'', nso_Quantity = 1, nso_LimitPrice = of_nat k * 1000000,
         nso_WebhookURL = []\<rparr>,
      RunGoroutine]"

definition book_of :: "nat \<Rightarrow> world" where
  "book_of n =
     serve initial_world
       ([Register ''B'' ''TB'',
         PostBalance ''TB'' \<lparr>TopupAmount = 1000000000, Currency = ''USD''\<rparr>]
        @ concat (map sell_order_at [1..<Suc n]))"

definition market_buy :: "nat \<Rightarrow> rat \<Rightarrow> world \<times> nat \<times> MarketOrderOutcome option" where
  "market_buy n quantity =
     marketOrderHandler (book_of n) ''TB'' \<lparr>mo_Quantity = quantity, mo_Type = ''BUY''\<rparr>"

definition book :: "db \<Rightarrow> (int \<times> string \<times> float64 \<times> int) list" where
  "book d = map (\<lambda>so. (ID so, State so, LimitPrice so, RemainingQuantity so)) (standing_orders d)"

definition untouched :: "nat \<Rightarrow> int \<times> string \<times> float64 \<times> int" where
  "untouched k = (int k, ''LIVE'', of_nat k, 100000000)"

definition consumed :: "nat \<Rightarrow> int \<times> string \<times> float64 \<times> int" where
  "consumed k = (int k, ''FULFILLED'', of_nat k, 0)"

text \<open>
  What the request leaves: the status and the quantity of the response, the buyer, and
  the book.
\<close>

definition buyer_and_book ::
  "world \<times> nat \<times> MarketOrderOutcome option
     \<Rightarrow> (nat \<times> float64 option) \<times> User option
         \<times> (int \<times> string \<times> float64 \<times> int) list" where
  "buyer_and_book r =
     (case r of (w, status, outcome) \<Rightarrow>
        ((status, map_option out_Quantity outcome),
         find (\<lambda>u. User.ID u = ''B'') (users (DB w)), book (DB w)))"

lemma book_of_11: "book (DB (book_of 11)) = map untouched [1..<12]"
  by code_simp

text \<open>
  Claim C4: when a matching scan returns with unsatisfied demand and the demand side's
  capacity not exhausted, the book is exhausted for the price filter: every LIVE
  opposite-side order that satisfies the filter has been considered. The code does not
  keep this. With eleven LIVE SELL orders in the book, B asks for 20 BTC. The first page
  holds the orders 1 to 10, and the scan fulfils them. The second query asks for the
  rows from offset 10 on, of the orders that are LIVE now: there is only one, order 11,
  so the page is empty, and the scan ends (the source's comment there: no more matching
  orders exist). B gets 10 BTC of 20 and keeps 94500000000 cents; order 11 is LIVE with
  its whole quantity, and was never fetched.
\<close>

theorem C4_live_order_never_fetched:
  "buyer_and_book (market_buy 11 20)
     = ((200, Some 10),
        Some \<lparr>User.ID = ''B'', Token = ''TB'', USDCentsBalance = 94500000000,
              BTCSatoshiBalance = 1000000000\<rparr>,
        map consumed [1..<11] @ [untouched 11])"
  by code_simp

text \<open>
  With three resting SELL orders at 12000, 10000 and 15000 USD/BTC, a market order that
  the order at 10000 covers alone is filled from that order: within one page the scan
  follows the prices. (These are the prices of the specification's example; as cents per
  satoshi they are 0.012, 0.01 and 0.015, which a \<open>float64\<close> only approximates.)
\<close>

definition three_orders :: world where
  "three_orders =
     serve initial_world
       [Register ''B'' ''TB'',
        PostBalance ''TB'' \<lparr>TopupAmount = 1000000, Currency = ''USD''\<rparr>,
        Register ''S'' ''TS'',
        PostBalance ''TS'' \<lparr>TopupAmount = 3, Currency = ''BTC''\<rparr>,
        PostStandingOrder ''TS''
          \<lparr>nso_Type = ''SELL'', nso_Quantity = 1, nso_LimitPrice = 12000, nso_WebhookURL = []\<rparr>,
        RunGoroutine,
        PostStandingOrder ''TS''
          \<lparr>nso_Type = ''SELL'', nso_Quantity = 1, nso_LimitPrice = 10000, nso_WebhookURL = []\<rparr>,
        RunGoroutine,
        PostStandingOrder ''TS''
          \<lparr>nso_Type = ''SELL'', nso_Quantity = 1, nso_LimitPrice = 15000, nso_WebhookURL = []\<rparr>,
        RunGoroutine,
        PostMarketOrder ''TB'' \<lparr>mo_Quantity = 1 / 2, mo_Type = ''BUY''\<rparr>]"

lemma cheapest_of_three_first:
  "book (DB three_orders)
     = [(1, ''LIVE'', 3 / 250, 100000000), (2, ''LIVE'', 1 / 100, 50000000),
        (3, ''LIVE'', 3 / 200, 100000000)]"
  by code_simp

text \<open>
  Claim C7: for every state of the order book, a matching scan settles the eligible
  resting orders in strict price priority. The code does not keep this once the book has
  more than ten eligible orders. With twenty-one LIVE SELL orders at 1, 2, ..., 21 cents
  per satoshi, B asks for 11 BTC. The scan fulfils the orders 1 to 10 of the first page;
  the second query skips ten of the eleven orders that are LIVE now, and the scan buys
  the eleventh BTC from order 21, at 21 cents per satoshi, while the orders 11 to 20,
  each cheaper, keep their whole quantity: B pays 7600000000 cents for 11 BTC.
\<close>

theorem C7_dearest_order_before_cheaper_ones:
  "buyer_and_book (market_buy 21 11)
     = ((200, Some 11),
        Some \<lparr>User.ID = ''B'', Token = ''TB'', USDCentsBalance = 92400000000,
              BTCSatoshiBalance = 1100000000\<rparr>,
        map consumed [1..<11] @ map untouched [11..<21] @ [consumed 21])"
  by code_simp

section \<open>Notifications\<close>

text \<open>The webhook requests in a trace, and what one request adds to the trace.\<close>

fun notifications :: "event list \<Rightarrow> (string \<times> int) list" where
  "notifications [] = []"
| "notifications (WebhookPost url i # es) = (url, i) # notifications es"
| "notifications (e # es) = notifications es"

definition trace_of :: "world \<Rightarrow> request \<Rightarrow> event list" where
  "trace_of w r = drop (length (trace w)) (trace (handle w r))"

text \<open>
  Two sellers with a LIVE SELL order of 1 BTC each, at 1 and at 2 cents per satoshi, both
  with a webhook URL; a buyer with 3000000 USD.
\<close>

definition two_sellers :: world where
  "two_sellers =
     serve initial_world
       [Register ''S1'' ''T1'',
        PostBalance ''T1'' \<lparr>TopupAmount = 1, Currency = ''BTC''\<rparr>,
        PostStandingOrder ''T1''
          \<lparr>nso_Type = ''SELL'', nso_Quantity = 1, nso_LimitPrice = 1000000,
           nso_WebhookURL = ''http://s1''\<rparr>,
        RunGoroutine,
        Register ''S2'' ''T2'',
        PostBalance ''T2'' \<lparr>TopupAmount = 1, Currency = ''BTC''\<rparr>,
        PostStandingOrder ''T2''
          \<lparr>nso_Type = ''SELL'', nso_Quantity = 1, nso_LimitPrice = 2000000,
           nso_WebhookURL = ''http://s2''\<rparr>,
        RunGoroutine,
        Register ''B'' ''TB'',
        PostBalance ''TB'' \<lparr>TopupAmount = 3000000, Currency = ''USD''\<rparr>]"

definition buy_two :: request where
  "buy_two = PostMarketOrder ''TB'' \<lparr>mo_Quantity = 2, mo_Type = ''BUY''\<rparr>"

text \<open>
  Claim C5: the notification call is issued only after the enclosing ledger transaction
  has committed; no transaction is held open across a notification call, so a
  rolled-back settlement never produces a notification. \<open>DeleteStandingOrder\<close> and
  \<open>ExecuteStandingOrder\<close> notify after their commit, but the settlement of a fragment
  does not: \<open>BuyViaStandingOrder\<close> and \<open>SellViaStandingOrder\<close> call
  \<open>PerformWebhookRequest\<close> themselves, inside the transaction that the handler commits
  later. When B buys 2 BTC, both notifications go out before the commit. When the first
  write of the second fragment fails (the seventh call to the outside), the notification
  of the first fragment has gone out, and the transaction is rolled back: the committed
  database is the one before the request.
\<close>

theorem C5_notification_inside_transaction:
  "trace_of two_sellers buy_two
     = [TxBegin, WebhookPost ''http://s1'' 1, WebhookPost ''http://s2'' 2, TxCommit]
   \<and> trace_of (two_sellers\<lparr>faults := [False, False, False, False, False, False, True]\<rparr>) buy_two
     = [TxBegin, WebhookPost ''http://s1'' 1, TxRollback]
   \<and> DB (handle (two_sellers\<lparr>faults := [False, False, False, False, False, False, True]\<rparr>)
            buy_two)
     = DB two_sellers"
  by code_simp

text \<open>
  The cancellation, for comparison: the handler's own transaction is rolled back,
  \<open>DeleteStandingOrder\<close> opens a second one, commits it, and notifies then.
\<close>

lemma cancellation_notifies_after_commit:
  "trace_of two_sellers (DeleteOrder ''T1'' 1)
     = [TxBegin, TxRollback, TxBegin, TxCommit, WebhookPost ''http://s1'' 1]"
  by code_simp

text \<open>
  A has 1 BTC and asks for a standing SELL order of 10 BTC, with a webhook URL.
\<close>

definition short_seller :: world where
  "short_seller =
     serve initial_world
       [Register ''A'' ''TA'',
        PostBalance ''TA'' \<lparr>TopupAmount = 1, Currency = ''BTC''\<rparr>]"

definition oversized_order :: NewStandingOrder where
  "oversized_order =
     \<lparr>nso_Type = ''SELL'', nso_Quantity = 10, nso_LimitPrice = 10000,
      nso_WebhookURL = ''http://a''\<rparr>"

definition created ::
  "world \<times> StandingOrder option \<times> error option
     \<Rightarrow> (int \<times> string \<times> string) option \<times> error option \<times> (string \<times> int) list \<times> nat" where
  "created r =
     (case r of (w, so, err) \<Rightarrow>
        (map_option (\<lambda>x. (ID x, State x, WebhookURL x)) so, err, notifications (trace w),
         length (spawned w)))"

text \<open>
  Claim C9, as stated: for a standing order born CANCELLED that has a notification
  target, exactly one notification carrying its identifier is fired. The code fires
  none: \<open>CreateStandingOrder\<close> returns the order with \<open>INSUFFICIENT_BALANCE\<close>, and the
  handler answers 409 with the identifier.
\<close>

theorem C9_counterexample:
  "created (CreateStandingOrder (Begin short_seller)
              \<lparr>User.ID = ''A'', Token = ''TA'', USDCentsBalance = 0,
                BTCSatoshiBalance = 100000000\<rparr> oversized_order)
     = (Some (1, ''CANCELLED'', ''http://a''), Some INSUFFICIENT_BALANCE, [], 0)
   \<and> snd (standingOrderHandler_POST short_seller ''TA'' oversized_order) = (409, Some 1)
   \<and> notifications (trace (fst (standingOrderHandler_POST short_seller ''TA'' oversized_order)))
       \<noteq> [(''http://a'', 1)]"
  by code_simp

lemma notifications_append: "notifications (xs @ ys) = notifications xs @ notifications ys"
  by (induction xs rule: notifications.induct) auto

lemma external_call_fields:
  "external_call w = (b, w') \<Longrightarrow> trace w' = trace w \<and> spawned w' = spawned w"
  by (auto simp: external_call_def split: list.splits)

lemma Commit_fields:
  "Commit w = (b, w') \<Longrightarrow> notifications (trace w') = notifications (trace w)
     \<and> spawned w' = spawned w"
  by (auto simp: Commit_def notifications_append split: prod.splits bool.splits
      dest: external_call_fields)

lemma GetBlockedUsdCents_fields:
  "GetBlockedUsdCents w u = (w', b, e) \<Longrightarrow> trace w' = trace w \<and> spawned w' = spawned w
     \<and> (e = None \<or> e = Some storage_error)"
  by (auto simp: GetBlockedUsdCents_def split: prod.splits bool.splits
      dest: external_call_fields)

lemma GetBlockedSatoshis_fields:
  "GetBlockedSatoshis w u = (w', b, e) \<Longrightarrow> trace w' = trace w \<and> spawned w' = spawned w
     \<and> (e = None \<or> e = Some storage_error)"
  by (auto simp: GetBlockedSatoshis_def split: prod.splits bool.splits
      dest: external_call_fields)

lemma insert_standing_order_insufficient:
  assumes "insert_standing_order w user nso q p st = (w', so, Some INSUFFICIENT_BALANCE)"
  shows "notifications (trace w') = notifications (trace w) \<and> spawned w' = spawned w
         \<and> (\<exists>x. so = Some x \<and> State x = ''CANCELLED'' \<and> RemainingQuantity x = q)"
proof -
  obtain b1 w1 where e: "external_call w = (b1, w1)" by (cases "external_call w")
  let ?w2 = "w1\<lparr>tx := (tx w1)\<lparr>standing_orders := standing_orders (tx w1) @
      [\<lparr>ID = next_id w1, UserId = User.ID user, Type = nso_Type nso, State = st,
        LimitPrice = p, AveragePrice = Some 0, FulfilledQuantity = 0, RemainingQuantity = q,
        WebhookURL = nso_WebhookURL nso, User = zero_User\<rparr>]\<rparr>, next_id := next_id w1 + 1\<rparr>"
  obtain b3 w3 where c: "Commit ?w2 = (b3, w3)" by (cases "Commit ?w2")
  from external_call_fields [OF e] Commit_fields [OF c]
  have "notifications (trace w3) = notifications (trace w)" "spawned w3 = spawned w"
    by simp_all
  with assms e c show ?thesis
    by (auto simp: insert_standing_order_def Let_def Rollback_def split: bool.splits if_splits)
qed

text \<open>
  Claim C9, amended: for every standing order that is cancelled at admission time, with
  or without a notification target, no notification is fired and no execution is
  started: the webhook requests made are the ones made before, and the caller receives
  the order, in state CANCELLED, together with the insufficient-balance outcome.
\<close>

theorem C9_no_notification_at_admission:
  assumes "CreateStandingOrder w user newStandingOrder = (w', so, Some INSUFFICIENT_BALANCE)"
  shows "notifications (trace w') = notifications (trace w) \<and> spawned w' = spawned w
         \<and> (\<exists>standingOrder. so = Some standingOrder \<and> State standingOrder = ''CANCELLED'')"
proof (cases "nso_Type newStandingOrder = ''BUY''")
  case True
  obtain w1 blocked e where g: "GetBlockedUsdCents w user = (w1, blocked, e)"
    by (cases "GetBlockedUsdCents w user") auto
  from assms True g GetBlockedUsdCents_fields [OF g] obtain st where
    "insert_standing_order w1 user newStandingOrder
       (int64 (nso_Quantity newStandingOrder * 100000000))
       (nso_LimitPrice newStandingOrder / 1000000) st = (w', so, Some INSUFFICIENT_BALANCE)"
    by (auto simp: CreateStandingOrder_def Let_def split: option.splits)
  from insert_standing_order_insufficient [OF this] GetBlockedUsdCents_fields [OF g]
  show ?thesis by auto
next
  case False
  obtain w1 blocked e where g: "GetBlockedSatoshis w user = (w1, blocked, e)"
    by (cases "GetBlockedSatoshis w user") auto
  from assms False g GetBlockedSatoshis_fields [OF g] obtain st where
    "insert_standing_order w1 user newStandingOrder
       (int64 (nso_Quantity newStandingOrder * 100000000))
       (nso_LimitPrice newStandingOrder / 1000000) st = (w', so, Some INSUFFICIENT_BALANCE)"
    by (auto simp: CreateStandingOrder_def Let_def split: option.splits)
  from insert_standing_order_insufficient [OF this] GetBlockedSatoshis_fields [OF g]
  show ?thesis by auto
qed

theorem C9_no_notification_at_admission_witness:
  "(\<exists>w' so. CreateStandingOrder (Begin short_seller)
              \<lparr>User.ID = ''A'', Token = ''TA'', USDCentsBalance = 0,
                BTCSatoshiBalance = 100000000\<rparr> oversized_order
            = (w', so, Some INSUFFICIENT_BALANCE)
          \<and> notifications (trace w') = [] \<and> spawned w' = []
          \<and> (\<exists>standingOrder. so = Some standingOrder \<and> State standingOrder = ''CANCELLED''))"
proof -
  let ?u = "\<lparr>User.ID = ''A'', Token = ''TA'', USDCentsBalance = 0,
             BTCSatoshiBalance = 100000000\<rparr>"
  obtain w' so err where r: "CreateStandingOrder (Begin short_seller) ?u oversized_order
      = (w', so, err)"
    by (cases "CreateStandingOrder (Begin short_seller) ?u oversized_order") auto
  have "fst (snd (snd (created (CreateStandingOrder (Begin short_seller) ?u oversized_order)))) = []"
    "fst (snd (created (CreateStandingOrder (Begin short_seller) ?u oversized_order)))
       = Some INSUFFICIENT_BALANCE"
    by code_simp+
  with r have e: "err = Some INSUFFICIENT_BALANCE"
    by (simp_all add: created_def)
  have b: "notifications (trace (Begin short_seller)) = []" "spawned (Begin short_seller) = []"
    by code_simp+
  from C9_no_notification_at_admission [OF r [unfolded e]] r e b show ?thesis by auto
qed

section \<open>Conservation of money\<close>

text \<open>
  S registers and tops up 2 BTC, then places two standing SELL orders of 1 BTC each, at 1
  and at 2 cents per satoshi; both are admitted LIVE. B registers and tops up
  3000000 USD, then buys 2 BTC with a market order.
\<close>

definition one_seller_two_orders :: world where
  "one_seller_two_orders =
     serve initial_world
       [Register ''S'' ''TS'',
        PostBalance ''TS'' \<lparr>TopupAmount = 2, Currency = ''BTC''\<rparr>,
        PostStandingOrder ''TS''
          \<lparr>nso_Type = ''SELL'', nso_Quantity = 1, nso_LimitPrice = 1000000, nso_WebhookURL = []\<rparr>,
        RunGoroutine,
        PostStandingOrder ''TS''
          \<lparr>nso_Type = ''SELL'', nso_Quantity = 1, nso_LimitPrice = 2000000, nso_WebhookURL = []\<rparr>,
        RunGoroutine,
        Register ''B'' ''TB'',
        PostBalance ''TB'' \<lparr>TopupAmount = 3000000, Currency = ''USD''\<rparr>]"

definition totals :: "db \<Rightarrow> int \<times> int" where
  "totals d = (sum_list (map USDCentsBalance (users d)), sum_list (map BTCSatoshiBalance (users d)))"

text \<open>
  Claim C10: a settled fragment between two distinct users leaves the sum of their fiat
  balances and the sum of their crypto balances unchanged. The code does not keep this
  when two orders of one page have the same owner. The owner that a fragment credits and
  debits is \<open>standingOrder.User\<close>, the copy made when the page was fetched, and the
  fragment saves that copy: the second fragment of S starts again from the balances S had
  before the first and overwrites what the first wrote. B pays 300000000 cents for
  200000000 satoshis; S ends with 200000000 cents and still 100000000 satoshis. The two
  users together held 300000000 cents and 200000000 satoshis before the market order,
  and hold 200000000 cents and 300000000 satoshis after it.
\<close>

theorem C10_second_fragment_overwrites_first:
  "balances (DB one_seller_two_orders) = [(''S'', 0, 200000000), (''B'', 300000000, 0)]
   \<and> balances (DB (handle one_seller_two_orders buy_two))
       = [(''S'', 200000000, 100000000), (''B'', 0, 200000000)]
   \<and> book (DB (handle one_seller_two_orders buy_two))
       = [(1, ''FULFILLED'', 1, 0), (2, ''FULFILLED'', 2, 0)]
   \<and> totals (DB one_seller_two_orders) = (300000000, 200000000)
   \<and> totals (DB (handle one_seller_two_orders buy_two)) = (200000000, 300000000)"
  by code_simp

section \<open>What a scan returns\<close>

lemma persist_fragment_error:
  "persist_fragment w so c u = (w', Some e) \<Longrightarrow> \<exists>p. e = unhandled p"
  by (auto simp: persist_fragment_def split: prod.splits bool.splits)

lemma BuyViaStandingOrder_balances:
  "BuyViaStandingOrder w user so n = (w', user', Inr (q, x, ex)) \<Longrightarrow>
     BTCSatoshiBalance user' = BTCSatoshiBalance user + q \<and>
     USDCentsBalance user' = USDCentsBalance user - x"
  by (auto simp: BuyViaStandingOrder_def Let_def split: option.splits prod.splits if_splits)

lemma BuyViaStandingOrder_error:
  "BuyViaStandingOrder w user so n = (w', user', Inl e) \<Longrightarrow>
     e = non_finite_conversion \<or> (\<exists>p. e = unhandled p)"
  by (auto simp: BuyViaStandingOrder_def Let_def split: option.splits prod.splits if_splits
      dest: persist_fragment_error)

lemma BuySatoshis_page_totals:
  "BuySatoshis_page w user sos a b c = (w', user', (a', b', c'), ex) \<Longrightarrow>
     (case ex of
        page_failed e \<Rightarrow> e = non_finite_conversion \<or> (\<exists>p. e = unhandled p)
      | _ \<Rightarrow> BTCSatoshiBalance user' - b' = BTCSatoshiBalance user - b \<and>
             USDCentsBalance user' + a' = USDCentsBalance user + a)"
proof (induction sos arbitrary: w user a b c)
  case Nil
  then show ?case by simp
next
  case (Cons so sos)
  obtain w1 u1 r1 where f: "BuyViaStandingOrder w user so c = (w1, u1, r1)"
    by (cases "BuyViaStandingOrder w user so c") auto
  show ?case
  proof (cases r1)
    case (Inl e)
    with Cons.prems f BuyViaStandingOrder_error [of w user so c w1 u1 e] show ?thesis by auto
  next
    case (Inr t)
    obtain q x fx where t: "t = (q, x, fx)" by (cases t)
    note bal = BuyViaStandingOrder_balances [OF f [unfolded Inr t]]
    show ?thesis
    proof (cases "c - q = 0 \<or> fx")
      case True
      with Cons.prems f Inr t bal show ?thesis by (auto simp: Let_def split: if_splits)
    next
      case False
      with Cons.prems f Inr t
      have "BuySatoshis_page w1 u1 sos (a + x) (b + q) (c - q) = (w', user', (a', b', c'), ex)"
        by (simp add: Let_def)
      from Cons.IH [OF this] bal show ?thesis by (cases ex) auto
    qed
  qed
qed

lemma BuySatoshis_loop_totals:
  "BuySatoshis_loop w user p off a b c = (w', user', (a', b', c'), err) \<Longrightarrow>
     (case err of
        None \<Rightarrow> BTCSatoshiBalance user' - b' = BTCSatoshiBalance user - b \<and>
                USDCentsBalance user' + a' = USDCentsBalance user + a
      | Some e \<Rightarrow> e \<noteq> NO_MATCHING_STANDING_ORDERS)"
proof (induction w user p off a b c rule: BuySatoshis_loop.induct)
  case (1 w user p off a b c)
  show ?case
  proof (cases "c > 0")
    case False
    with "1.prems" show ?thesis by (subst (asm) BuySatoshis_loop.simps) simp
  next
    case True
    obtain w1 sos e1 where q: "getStandingSellOrders w p off 10 = (w1, sos, e1)"
      by (cases "getStandingSellOrders w p off 10") auto
    obtain w2 u2 a2 b2 c2 ex where
      pg: "BuySatoshis_page w1 user sos a b c = (w2, u2, (a2, b2, c2), ex)"
      by (cases "BuySatoshis_page w1 user sos a b c") auto
    note tot = BuySatoshis_page_totals [OF pg]
    show ?thesis
    proof (cases "e1 \<noteq> None \<and> e1 \<noteq> Some NO_MATCHING_STANDING_ORDERS")
      case True
      with "1.prems" \<open>c > 0\<close> q show ?thesis
        by (subst (asm) BuySatoshis_loop.simps) auto
    next
      case ok: False
      show ?thesis
      proof (cases "ex = page_done \<and> e1 \<noteq> Some NO_MATCHING_STANDING_ORDERS")
        case False
        with "1.prems" \<open>c > 0\<close> q pg ok tot show ?thesis
          by (subst (asm) BuySatoshis_loop.simps) (auto split: page_exit.splits)
      next
        case True
        with "1.prems" \<open>c > 0\<close> q pg ok
        have r: "BuySatoshis_loop w2 u2 p (off + 10) a2 b2 c2 = (w', user', (a', b', c'), err)"
          by (subst (asm) BuySatoshis_loop.simps) auto
        have "case err of
                None \<Rightarrow> BTCSatoshiBalance user' - b' = BTCSatoshiBalance u2 - b2 \<and>
                        USDCentsBalance user' + a' = USDCentsBalance u2 + a2
              | Some e \<Rightarrow> e \<noteq> NO_MATCHING_STANDING_ORDERS"
          using "1.IH" [OF \<open>c > 0\<close> q [symmetric] refl ok pg [symmetric] refl refl refl refl _ _ r]
            True by simp
        with tot True show ?thesis by (auto split: option.splits)
      qed
    qed
  qed
qed

lemma SellViaStandingOrder_balances:
  "SellViaStandingOrder w user so n = (w', user', Inr (q, x, ex)) \<Longrightarrow>
     BTCSatoshiBalance user' = BTCSatoshiBalance user - q \<and>
     USDCentsBalance user' = USDCentsBalance user + x"
  by (auto simp: SellViaStandingOrder_def Let_def split: option.splits prod.splits if_splits)

lemma SellViaStandingOrder_error:
  "SellViaStandingOrder w user so n = (w', user', Inl e) \<Longrightarrow>
     e = non_finite_conversion \<or> (\<exists>p. e = unhandled p)"
  by (auto simp: SellViaStandingOrder_def Let_def split: option.splits prod.splits if_splits
      dest: persist_fragment_error)

lemma SellSatoshis_page_totals:
  "SellSatoshis_page w user sos a b c = (w', user', (a', b', c'), ex) \<Longrightarrow>
     (case ex of
        page_failed e \<Rightarrow> e = non_finite_conversion \<or> (\<exists>p. e = unhandled p)
      | _ \<Rightarrow> BTCSatoshiBalance user' + b' = BTCSatoshiBalance user + b \<and>
             USDCentsBalance user' - a' = USDCentsBalance user - a)"
proof (induction sos arbitrary: w user a b c)
  case Nil
  then show ?case by simp
next
  case (Cons so sos)
  obtain w1 u1 r1 where f: "SellViaStandingOrder w user so c = (w1, u1, r1)"
    by (cases "SellViaStandingOrder w user so c") auto
  show ?case
  proof (cases r1)
    case (Inl e)
    with Cons.prems f SellViaStandingOrder_error [of w user so c w1 u1 e] show ?thesis by auto
  next
    case (Inr t)
    obtain q x fx where t: "t = (q, x, fx)" by (cases t)
    note bal = SellViaStandingOrder_balances [OF f [unfolded Inr t]]
    show ?thesis
    proof (cases "c - q = 0 \<or> fx")
      case True
      with Cons.prems f Inr t bal show ?thesis by (auto simp: Let_def split: if_splits)
    next
      case False
      with Cons.prems f Inr t
      have "SellSatoshis_page w1 u1 sos (a + x) (b + q) (c - q) = (w', user', (a', b', c'), ex)"
        by (simp add: Let_def)
      from Cons.IH [OF this] bal show ?thesis by (cases ex) auto
    qed
  qed
qed

lemma SellSatoshis_loop_totals:
  "SellSatoshis_loop w user p off a b c = (w', user', (a', b', c'), err) \<Longrightarrow>
     (case err of
        None \<Rightarrow> BTCSatoshiBalance user' + b' = BTCSatoshiBalance user + b \<and>
                USDCentsBalance user' - a' = USDCentsBalance user - a
      | Some e \<Rightarrow> e \<noteq> NO_MATCHING_STANDING_ORDERS)"
proof (induction w user p off a b c rule: SellSatoshis_loop.induct)
  case (1 w user p off a b c)
  show ?case
  proof (cases "c > 0")
    case False
    with "1.prems" show ?thesis by (subst (asm) SellSatoshis_loop.simps) simp
  next
    case True
    obtain w1 sos e1 where q: "getStandingBuyOrders w p off 10 = (w1, sos, e1)"
      by (cases "getStandingBuyOrders w p off 10") auto
    obtain w2 u2 a2 b2 c2 ex where
      pg: "SellSatoshis_page w1 user sos a b c = (w2, u2, (a2, b2, c2), ex)"
      by (cases "SellSatoshis_page w1 user sos a b c") auto
    note tot = SellSatoshis_page_totals [OF pg]
    show ?thesis
    proof (cases "e1 \<noteq> None \<and> e1 \<noteq> Some NO_MATCHING_STANDING_ORDERS")
      case True
      with "1.prems" \<open>c > 0\<close> q show ?thesis
        by (subst (asm) SellSatoshis_loop.simps) auto
    next
      case ok: False
      show ?thesis
      proof (cases "ex = page_done \<and> e1 \<noteq> Some NO_MATCHING_STANDING_ORDERS")
        case False
        with "1.prems" \<open>c > 0\<close> q pg ok tot show ?thesis
          by (subst (asm) SellSatoshis_loop.simps) (auto split: page_exit.splits)
      next
        case True
        with "1.prems" \<open>c > 0\<close> q pg ok
        have r: "SellSatoshis_loop w2 u2 p (off + 10) a2 b2 c2 = (w', user', (a', b', c'), err)"
          by (subst (asm) SellSatoshis_loop.simps) auto
        have "case err of
                None \<Rightarrow> BTCSatoshiBalance user' + b' = BTCSatoshiBalance u2 + b2 \<and>
                        USDCentsBalance user' - a' = USDCentsBalance u2 - a2
              | Some e \<Rightarrow> e \<noteq> NO_MATCHING_STANDING_ORDERS"
          using "1.IH" [OF \<open>c > 0\<close> q [symmetric] refl ok pg [symmetric] refl refl refl refl _ _ r]
            True by simp
        with tot True show ?thesis by (auto split: option.splits)
      qed
    qed
  qed
qed

text \<open>
  When no call to the outside fails and no order in the table has the limit price 0, a
  scan does not end in an internal failure.
\<close>

lemma settle_order_LimitPrice: "LimitPrice (settle_order so q x) = LimitPrice so"
  by (simp add: settle_order_def Let_def)

lemma upsert_order_prices:
  "LimitPrice so \<noteq> 0 \<Longrightarrow> \<forall>x\<in>set sos. LimitPrice x \<noteq> 0 \<Longrightarrow>
     \<forall>x\<in>set (upsert_order so sos). LimitPrice x \<noteq> 0"
  by (auto simp: upsert_order_def)

lemma persist_fragment_quiet:
  assumes "faults w = []" and "persist_fragment w so c u = (w', r)"
  shows "faults w' = [] \<and> r = None
         \<and> standing_orders (tx w') = upsert_order so (standing_orders (tx w))"
  using assms
  by (auto simp: persist_fragment_def Save_order_def Save_user_def PerformWebhookRequest_def
      external_call_no_faults split: if_splits)

lemma BuyViaStandingOrder_quiet:
  assumes "faults w = []" and "LimitPrice so \<noteq> 0"
    and "\<forall>x\<in>set (standing_orders (tx w)). LimitPrice x \<noteq> 0"
    and "BuyViaStandingOrder w user so n = (w', user', res)"
  shows "faults w' = [] \<and> (\<forall>x\<in>set (standing_orders (tx w')). LimitPrice x \<noteq> 0)
         \<and> (\<exists>t. res = Inr t)"
proof -
  from assms(2) obtain cap where c: "int64_quotient (USDCentsBalance user) (LimitPrice so) = Some cap"
    by (simp add: int64_quotient_def)
  from assms(4) obtain so' c' u' where
    p: "persist_fragment w so' c' u' = (w', case res of Inl e \<Rightarrow> Some e | Inr t \<Rightarrow> None)"
    and s: "LimitPrice so' = LimitPrice so"
    by (auto simp: BuyViaStandingOrder_def c Let_def settle_order_LimitPrice
        split: prod.splits option.splits if_splits)
  from persist_fragment_quiet [OF assms(1) p] upsert_order_prices [of so' "standing_orders (tx w)"]
    s assms(2,3)
  show ?thesis by (cases res) auto
qed

lemma BuySatoshis_page_quiet:
  "faults w = [] \<Longrightarrow> \<forall>x\<in>set sos. LimitPrice x \<noteq> 0 \<Longrightarrow>
   \<forall>x\<in>set (standing_orders (tx w)). LimitPrice x \<noteq> 0 \<Longrightarrow>
   BuySatoshis_page w user sos a b c = (w', user', acc, ex) \<Longrightarrow>
     faults w' = [] \<and> (\<forall>x\<in>set (standing_orders (tx w')). LimitPrice x \<noteq> 0)
     \<and> (\<forall>e. ex \<noteq> page_failed e)"
proof (induction sos arbitrary: w user a b c)
  case Nil
  then show ?case by auto
next
  case (Cons so sos)
  obtain w1 u1 r1 where f: "BuyViaStandingOrder w user so c = (w1, u1, r1)"
    by (cases "BuyViaStandingOrder w user so c") auto
  from BuyViaStandingOrder_quiet [OF Cons.prems(1) _ Cons.prems(3) f] Cons.prems(2)
  obtain t where q: "faults w1 = []" "\<forall>x\<in>set (standing_orders (tx w1)). LimitPrice x \<noteq> 0"
    "r1 = Inr t"
    by auto
  obtain n x fx where t: "t = (n, x, fx)" by (cases t)
  show ?case
  proof (cases "c - n = 0 \<or> fx")
    case True
    with Cons.prems(4) f q t show ?thesis by (auto simp: Let_def split: if_splits)
  next
    case False
    with Cons.prems(4) f q t
    have "BuySatoshis_page w1 u1 sos (a + x) (b + n) (c - n) = (w', user', acc, ex)"
      by (simp add: Let_def)
    from Cons.IH [OF q(1) _ q(2) this] Cons.prems(2) show ?thesis by simp
  qed
qed

lemma getStandingSellOrders_quiet:
  assumes "faults w = []" and "\<forall>x\<in>set (standing_orders (tx w)). LimitPrice x \<noteq> 0"
    and "getStandingSellOrders w p offset size0 = (w1, sos, err)"
  shows "w1 = w \<and> (\<forall>x\<in>set sos. LimitPrice x \<noteq> 0)
         \<and> (err = None \<or> err = Some NO_MATCHING_STANDING_ORDERS)"
proof -
  let ?rows = "live_sell_orders (tx w) p"
  have "\<forall>x\<in>set (take size0 (drop offset ?rows)). LimitPrice x \<noteq> 0"
    using assms(2) by (auto simp: live_sell_orders_def dest!: in_set_takeD in_set_dropD)
  with assms(1,3) show ?thesis
    by (auto simp: getStandingSellOrders_def external_call_no_faults Let_def preload_User_def
        split: if_splits)
qed

lemma BuySatoshis_loop_quiet:
  "BuySatoshis_loop w user p off a b c = (w', user', acc, err) \<Longrightarrow> faults w = [] \<Longrightarrow>
   \<forall>x\<in>set (standing_orders (tx w)). LimitPrice x \<noteq> 0 \<Longrightarrow> err = None"
proof (induction w user p off a b c rule: BuySatoshis_loop.induct)
  case (1 w user p off a b c)
  show ?case
  proof (cases "c > 0")
    case False
    with "1.prems" show ?thesis by (subst (asm) BuySatoshis_loop.simps) simp
  next
    case True
    obtain w1 sos e1 where q: "getStandingSellOrders w p off 10 = (w1, sos, e1)"
      by (cases "getStandingSellOrders w p off 10") auto
    obtain w2 u2 a2 b2 c2 ex where
      pg: "BuySatoshis_page w1 user sos a b c = (w2, u2, (a2, b2, c2), ex)"
      by (cases "BuySatoshis_page w1 user sos a b c") auto
    from getStandingSellOrders_quiet [OF "1.prems"(2,3) q]
    have g: "w1 = w" "\<forall>x\<in>set sos. LimitPrice x \<noteq> 0"
      and ok: "\<not> (e1 \<noteq> None \<and> e1 \<noteq> Some NO_MATCHING_STANDING_ORDERS)"
      by auto
    from BuySatoshis_page_quiet [OF _ g(2) _ pg] "1.prems"(2,3) g(1)
    have pq: "faults w2 = [] \<and> (\<forall>x\<in>set (standing_orders (tx w2)). LimitPrice x \<noteq> 0)
        \<and> (\<forall>e. ex \<noteq> page_failed e)"
      by simp
    then have w2: "faults w2 = []" "\<forall>x\<in>set (standing_orders (tx w2)). LimitPrice x \<noteq> 0"
      by simp_all
    from pq have w2e: "ex = page_done \<or> ex = break_outerLoop" by (cases ex) simp_all
    show ?thesis
    proof (cases "ex = page_done \<and> e1 \<noteq> Some NO_MATCHING_STANDING_ORDERS")
      case False
      with "1.prems"(1) \<open>c > 0\<close> q pg ok w2e show ?thesis
        by (subst (asm) BuySatoshis_loop.simps) (auto split: page_exit.splits)
    next
      case True
      with "1.prems"(1) \<open>c > 0\<close> q pg ok
      have rr: "BuySatoshis_loop w2 u2 p (off + 10) a2 b2 c2 = (w', user', acc, err)"
        by (subst (asm) BuySatoshis_loop.simps) auto
      from "1.IH" [OF \<open>c > 0\<close> q [symmetric] refl ok pg [symmetric] refl refl refl refl _ _
          rr w2(1,2)] True
      show ?thesis by simp
    qed
  qed
qed

lemma BuySatoshis_quiet:
  assumes "BuySatoshis w user wanted p = (w', user', satisfied, average, err)"
    and "faults w = []" and "\<forall>x\<in>set (standing_orders (tx w)). LimitPrice x \<noteq> 0"
  shows "err = None \<or> err = Some NO_MATCHING_STANDING_ORDERS"
proof -
  obtain w1 u1 acc e where
    l: "BuySatoshis_loop w user p 0 0 0 wanted = (w1, u1, acc, e)"
    by (cases "BuySatoshis_loop w user p 0 0 0 wanted") auto
  from BuySatoshis_loop_quiet [OF l assms(2,3)] have "e = None" .
  with assms(1) l show ?thesis
    by (auto simp: BuySatoshis_def split: prod.splits if_splits)
qed

lemma SellViaStandingOrder_quiet:
  assumes "faults w = []" and "LimitPrice so \<noteq> 0"
    and "\<forall>x\<in>set (standing_orders (tx w)). LimitPrice x \<noteq> 0"
    and "SellViaStandingOrder w user so n = (w', user', res)"
  shows "faults w' = [] \<and> (\<forall>x\<in>set (standing_orders (tx w')). LimitPrice x \<noteq> 0)
         \<and> (\<exists>t. res = Inr t)"
proof -
  from assms(4) obtain so' c' u' where
    p: "persist_fragment w so' c' u' = (w', case res of Inl e \<Rightarrow> Some e | Inr t \<Rightarrow> None)"
    and s: "LimitPrice so' = LimitPrice so"
    by (auto simp: SellViaStandingOrder_def Let_def settle_order_LimitPrice
        split: prod.splits option.splits if_splits)
  from persist_fragment_quiet [OF assms(1) p] upsert_order_prices [of so' "standing_orders (tx w)"]
    s assms(2,3)
  show ?thesis by (cases res) auto
qed

lemma SellSatoshis_page_quiet:
  "faults w = [] \<Longrightarrow> \<forall>x\<in>set sos. LimitPrice x \<noteq> 0 \<Longrightarrow>
   \<forall>x\<in>set (standing_orders (tx w)). LimitPrice x \<noteq> 0 \<Longrightarrow>
   SellSatoshis_page w user sos a b c = (w', user', acc, ex) \<Longrightarrow>
     faults w' = [] \<and> (\<forall>x\<in>set (standing_orders (tx w')). LimitPrice x \<noteq> 0)
     \<and> (\<forall>e. ex \<noteq> page_failed e)"
proof (induction sos arbitrary: w user a b c)
  case Nil
  then show ?case by auto
next
  case (Cons so sos)
  obtain w1 u1 r1 where f: "SellViaStandingOrder w user so c = (w1, u1, r1)"
    by (cases "SellViaStandingOrder w user so c") auto
  from SellViaStandingOrder_quiet [OF Cons.prems(1) _ Cons.prems(3) f] Cons.prems(2)
  obtain t where q: "faults w1 = []" "\<forall>x\<in>set (standing_orders (tx w1)). LimitPrice x \<noteq> 0"
    "r1 = Inr t"
    by auto
  obtain n x fx where t: "t = (n, x, fx)" by (cases t)
  show ?case
  proof (cases "c - n = 0 \<or> fx")
    case True
    with Cons.prems(4) f q t show ?thesis by (auto simp: Let_def split: if_splits)
  next
    case False
    with Cons.prems(4) f q t
    have "SellSatoshis_page w1 u1 sos (a + x) (b + n) (c - n) = (w', user', acc, ex)"
      by (simp add: Let_def)
    from Cons.IH [OF q(1) _ q(2) this] Cons.prems(2) show ?thesis by simp
  qed
qed

lemma getStandingBuyOrders_quiet:
  assumes "faults w = []" and "\<forall>x\<in>set (standing_orders (tx w)). LimitPrice x \<noteq> 0"
    and "getStandingBuyOrders w p offset size0 = (w1, sos, err)"
  shows "w1 = w \<and> (\<forall>x\<in>set sos. LimitPrice x \<noteq> 0)
         \<and> (err = None \<or> err = Some NO_MATCHING_STANDING_ORDERS)"
proof -
  let ?rows = "live_buy_orders (tx w) p"
  have "\<forall>x\<in>set (take size0 (drop offset ?rows)). LimitPrice x \<noteq> 0"
    using assms(2) by (auto simp: live_buy_orders_def dest!: in_set_takeD in_set_dropD)
  with assms(1,3) show ?thesis
    by (auto simp: getStandingBuyOrders_def external_call_no_faults Let_def preload_User_def
        split: if_splits)
qed

lemma SellSatoshis_loop_quiet:
  "SellSatoshis_loop w user p off a b c = (w', user', acc, err) \<Longrightarrow> faults w = [] \<Longrightarrow>
   \<forall>x\<in>set (standing_orders (tx w)). LimitPrice x \<noteq> 0 \<Longrightarrow> err = None"
proof (induction w user p off a b c rule: SellSatoshis_loop.induct)
  case (1 w user p off a b c)
  show ?case
  proof (cases "c > 0")
    case False
    with "1.prems" show ?thesis by (subst (asm) SellSatoshis_loop.simps) simp
  next
    case True
    obtain w1 sos e1 where q: "getStandingBuyOrders w p off 10 = (w1, sos, e1)"
      by (cases "getStandingBuyOrders w p off 10") auto
    obtain w2 u2 a2 b2 c2 ex where
      pg: "SellSatoshis_page w1 user sos a b c = (w2, u2, (a2, b2, c2), ex)"
      by (cases "SellSatoshis_page w1 user sos a b c") auto
    from getStandingBuyOrders_quiet [OF "1.prems"(2,3) q]
    have g: "w1 = w" "\<forall>x\<in>set sos. LimitPrice x \<noteq> 0"
      and ok: "\<not> (e1 \<noteq> None \<and> e1 \<noteq> Some NO_MATCHING_STANDING_ORDERS)"
      by auto
    from SellSatoshis_page_quiet [OF _ g(2) _ pg] "1.prems"(2,3) g(1)
    have pq: "faults w2 = [] \<and> (\<forall>x\<in>set (standing_orders (tx w2)). LimitPrice x \<noteq> 0)
        \<and> (\<forall>e. ex \<noteq> page_failed e)"
      by simp
    then have w2: "faults w2 = []" "\<forall>x\<in>set (standing_orders (tx w2)). LimitPrice x \<noteq> 0"
      by simp_all
    from pq have w2e: "ex = page_done \<or> ex = break_outerLoop" by (cases ex) simp_all
    show ?thesis
    proof (cases "ex = page_done \<and> e1 \<noteq> Some NO_MATCHING_STANDING_ORDERS")
      case False
      with "1.prems"(1) \<open>c > 0\<close> q pg ok w2e show ?thesis
        by (subst (asm) SellSatoshis_loop.simps) (auto split: page_exit.splits)
    next
      case True
      with "1.prems"(1) \<open>c > 0\<close> q pg ok
      have rr: "SellSatoshis_loop w2 u2 p (off + 10) a2 b2 c2 = (w', user', acc, err)"
        by (subst (asm) SellSatoshis_loop.simps) auto
      from "1.IH" [OF \<open>c > 0\<close> q [symmetric] refl ok pg [symmetric] refl refl refl refl _ _
          rr w2(1,2)] True
      show ?thesis by simp
    qed
  qed
qed

lemma SellSatoshis_quiet:
  assumes "SellSatoshis w user wanted p = (w', user', satisfied, average, err)"
    and "faults w = []" and "\<forall>x\<in>set (standing_orders (tx w)). LimitPrice x \<noteq> 0"
  shows "err = None \<or> err = Some NO_MATCHING_STANDING_ORDERS"
proof -
  obtain w1 u1 acc e where
    l: "SellSatoshis_loop w user p 0 0 0 wanted = (w1, u1, acc, e)"
    by (cases "SellSatoshis_loop w user p 0 0 0 wanted") auto
  from SellSatoshis_loop_quiet [OF l assms(2,3)] have "e = None" .
  with assms(1) l show ?thesis
    by (auto simp: SellSatoshis_def split: prod.splits if_splits)
qed

definition scan_outcome ::
  "world \<times> User \<times> int \<times> float64 \<times> error option
     \<Rightarrow> int \<times> int \<times> int \<times> float64 \<times> error option" where
  "scan_outcome r =
     (case r of (w, user, satisfied, average, err) \<Rightarrow>
        (USDCentsBalance user, BTCSatoshiBalance user, satisfied, average, err))"

lemma BuySatoshis_totals:
  assumes "BuySatoshis w user wanted p = (w', user', satisfied, average, err)"
    and "err = None \<or> err = Some NO_MATCHING_STANDING_ORDERS"
  shows "(err = Some NO_MATCHING_STANDING_ORDERS
            \<longleftrightarrow> BTCSatoshiBalance user' - BTCSatoshiBalance user = 0)
       \<and> (err = Some NO_MATCHING_STANDING_ORDERS \<longrightarrow> satisfied = 0 \<and> average = 0)
       \<and> (err = None \<longrightarrow>
            satisfied = BTCSatoshiBalance user' - BTCSatoshiBalance user \<and>
            average = to_float64 (USDCentsBalance user - USDCentsBalance user')
                        / to_float64 satisfied)"
proof -
  obtain w1 u1 a b c e where
    l: "BuySatoshis_loop w user p 0 0 0 wanted = (w1, u1, (a, b, c), e)"
    by (cases "BuySatoshis_loop w user p 0 0 0 wanted") auto
  note t = BuySatoshis_loop_totals [OF l]
  from assms l t have e: "e = None"
    by (cases e) (auto simp: BuySatoshis_def split: error.splits)
  with t have b: "b = BTCSatoshiBalance u1 - BTCSatoshiBalance user"
    and a: "a = USDCentsBalance user - USDCentsBalance u1"
    by simp_all
  from assms(1) l e a b show ?thesis
    by (auto simp: BuySatoshis_def split: if_splits)
qed

lemma SellSatoshis_totals:
  assumes "SellSatoshis w user wanted p = (w', user', satisfied, average, err)"
    and "err = None \<or> err = Some NO_MATCHING_STANDING_ORDERS"
  shows "(err = Some NO_MATCHING_STANDING_ORDERS
            \<longleftrightarrow> BTCSatoshiBalance user - BTCSatoshiBalance user' = 0)
       \<and> (err = Some NO_MATCHING_STANDING_ORDERS \<longrightarrow> satisfied = 0 \<and> average = 0)
       \<and> (err = None \<longrightarrow>
            satisfied = BTCSatoshiBalance user - BTCSatoshiBalance user' \<and>
            average = to_float64 (USDCentsBalance user' - USDCentsBalance user)
                        / to_float64 satisfied)"
proof -
  obtain w1 u1 a b c e where
    l: "SellSatoshis_loop w user p 0 0 0 wanted = (w1, u1, (a, b, c), e)"
    by (cases "SellSatoshis_loop w user p 0 0 0 wanted") auto
  note t = SellSatoshis_loop_totals [OF l]
  from assms l t have e: "e = None"
    by (cases e) (auto simp: SellSatoshis_def split: error.splits)
  with t have b: "b = BTCSatoshiBalance user - BTCSatoshiBalance u1"
    and a: "a = USDCentsBalance u1 - USDCentsBalance user"
    by simp_all
  from assms(1) l e a b show ?thesis
    by (auto simp: SellSatoshis_def split: if_splits)
qed

text \<open>
  Claim C6: a match attempt returns the NO_LIQUIDITY outcome if and only if the total
  settled quantity is zero; otherwise it succeeds, returning the settled quantity and the
  volume-weighted average price (the sum of the fragments' fiat amounts divided by the
  sum of their quantities), also when less than the requested quantity was settled. The
  total quantity and the total amount are read off the demanding user: every fragment
  credits its quantity to (or debits it from) that user and debits (credits) its fiat
  amount. The statement is about the attempts that do not end in an internal failure (a
  storage error, a recovered panic, a conversion the model does not follow); no attempt
  ends in one when no call to the outside fails and no order has the limit price 0.
\<close>

theorem C6_no_liquidity_iff_nothing_settled:
  assumes "BuySatoshis w user wanted limitPrice = (w1, user1, bought, average1, err1)"
    and "SellSatoshis w user wanted limitPrice = (w2, user2, sold, average2, err2)"
  shows "(err1 = None \<or> err1 = Some NO_MATCHING_STANDING_ORDERS \<longrightarrow>
            (err1 = Some NO_MATCHING_STANDING_ORDERS
               \<longleftrightarrow> BTCSatoshiBalance user1 - BTCSatoshiBalance user = 0)
          \<and> (err1 = Some NO_MATCHING_STANDING_ORDERS \<longrightarrow> bought = 0 \<and> average1 = 0)
          \<and> (err1 = None \<longrightarrow>
                bought = BTCSatoshiBalance user1 - BTCSatoshiBalance user \<and>
                average1 = to_float64 (USDCentsBalance user - USDCentsBalance user1)
                             / to_float64 bought))
       \<and> (err2 = None \<or> err2 = Some NO_MATCHING_STANDING_ORDERS \<longrightarrow>
            (err2 = Some NO_MATCHING_STANDING_ORDERS
               \<longleftrightarrow> BTCSatoshiBalance user - BTCSatoshiBalance user2 = 0)
          \<and> (err2 = Some NO_MATCHING_STANDING_ORDERS \<longrightarrow> sold = 0 \<and> average2 = 0)
          \<and> (err2 = None \<longrightarrow>
                sold = BTCSatoshiBalance user - BTCSatoshiBalance user2 \<and>
                average2 = to_float64 (USDCentsBalance user2 - USDCentsBalance user)
                             / to_float64 sold))
       \<and> (faults w = [] \<and> (\<forall>so\<in>set (standing_orders (tx w)). LimitPrice so \<noteq> 0) \<longrightarrow>
            (err1 = None \<or> err1 = Some NO_MATCHING_STANDING_ORDERS) \<and>
            (err2 = None \<or> err2 = Some NO_MATCHING_STANDING_ORDERS))"
  using BuySatoshis_totals [OF assms(1)] SellSatoshis_totals [OF assms(2)]
    BuySatoshis_quiet [OF assms(1)] SellSatoshis_quiet [OF assms(2)]
  by blast

text \<open>
  The witness: in the book of the two sellers (2 BTC on offer, for 300000000 cents), B
  asks for 5 BTC and gets 2, at 1.5 cents per satoshi on average: a partial fill, and a
  success. B asking to sell finds no BUY order: NO_MATCHING_STANDING_ORDERS, and nothing
  settled.
\<close>

definition rich_buyer :: User where
  "rich_buyer =
     \<lparr>User.ID = ''B'', Token = ''TB'', USDCentsBalance = 300000000, BTCSatoshiBalance = 0\<rparr>"

theorem C6_no_liquidity_iff_nothing_settled_witness:
  "faults (Begin two_sellers) = []
   \<and> list_all (\<lambda>so. LimitPrice so \<noteq> 0) (standing_orders (tx (Begin two_sellers)))
   \<and> scan_outcome (BuySatoshis (Begin two_sellers) rich_buyer 500000000 0)
     = (0, 200000000, 200000000, 3 / 2, None)
   \<and> 200000000 = 200000000 - BTCSatoshiBalance rich_buyer
   \<and> (3 / 2 :: rat) = to_float64 (USDCentsBalance rich_buyer - 0) / to_float64 200000000
   \<and> scan_outcome (SellSatoshis (Begin two_sellers) rich_buyer 500000000 0)
     = (300000000, 0, 0, 0, Some NO_MATCHING_STANDING_ORDERS)
   \<and> BTCSatoshiBalance rich_buyer - 0 = 0"
proof -
  obtain w1 u1 q1 a1 e1 where
    r1: "BuySatoshis (Begin two_sellers) rich_buyer 500000000 0 = (w1, u1, q1, a1, e1)"
    by (cases "BuySatoshis (Begin two_sellers) rich_buyer 500000000 0") auto
  obtain w2 u2 q2 a2 e2 where
    r2: "SellSatoshis (Begin two_sellers) rich_buyer 500000000 0 = (w2, u2, q2, a2, e2)"
    by (cases "SellSatoshis (Begin two_sellers) rich_buyer 500000000 0") auto
  have v1: "scan_outcome (BuySatoshis (Begin two_sellers) rich_buyer 500000000 0)
     = (0, 200000000, 200000000, 3 / 2, None)"
    by code_simp
  have v2: "scan_outcome (SellSatoshis (Begin two_sellers) rich_buyer 500000000 0)
     = (300000000, 0, 0, 0, Some NO_MATCHING_STANDING_ORDERS)"
    by code_simp
  have v3: "BTCSatoshiBalance rich_buyer = 0" "USDCentsBalance rich_buyer = 300000000"
    by (simp_all add: rich_buyer_def)
  have v4: "faults (Begin two_sellers) = []"
    "list_all (\<lambda>so. LimitPrice so \<noteq> 0) (standing_orders (tx (Begin two_sellers)))"
    by code_simp+
  from v1 r1 have x1: "USDCentsBalance u1 = 0" "BTCSatoshiBalance u1 = 200000000"
    "q1 = 200000000" "a1 = 3 / 2" "e1 = None"
    by (simp_all add: scan_outcome_def)
  from v2 r2 have x2: "USDCentsBalance u2 = 300000000" "BTCSatoshiBalance u2 = 0"
    "e2 = Some NO_MATCHING_STANDING_ORDERS"
    by (simp_all add: scan_outcome_def)
  from C6_no_liquidity_iff_nothing_settled [OF r1 r2] v1 v2 v3 v4 x1 x2 show ?thesis
    by simp
qed

section \<open>What the operations leave of an order\<close>

definition order_row :: "db \<Rightarrow> int \<Rightarrow> StandingOrder option" where
  "order_row d i = find (\<lambda>so. ID so = i) (standing_orders d)"

lemma find_map_other:
  "(\<And>x. P (f x) = P x) \<Longrightarrow> (\<And>x. P x \<Longrightarrow> f x = x) \<Longrightarrow> find P (map f xs) = find P xs"
  by (induction xs) auto

lemma find_snoc_other: "\<not> P y \<Longrightarrow> find P (xs @ [y]) = find P xs"
  by (induction xs) auto

lemma upsert_order_other:
  "ID so \<noteq> i \<Longrightarrow> find (\<lambda>x. ID x = i) (upsert_order so sos) = find (\<lambda>x. ID x = i) sos"
  by (auto simp: upsert_order_def intro!: find_map_other find_snoc_other)

lemma upsert_order_same:
  "find (\<lambda>x. ID x = ID so) (upsert_order so sos) = Some (so\<lparr>User := zero_User\<rparr>)"
proof (cases "ID so \<in> set (map ID sos)")
  case True
  then have "find (\<lambda>x. ID x = ID so) (map (\<lambda>x. if ID x = ID so then so\<lparr>User := zero_User\<rparr> else x) sos)
      = Some (so\<lparr>User := zero_User\<rparr>)"
    by (induction sos) auto
  with True show ?thesis by (simp add: upsert_order_def)
next
  case False
  then have "find (\<lambda>x. ID x = ID so) (sos @ [so\<lparr>User := zero_User\<rparr>])
      = Some (so\<lparr>User := zero_User\<rparr>)"
    by (induction sos) auto
  with False show ?thesis by (simp add: upsert_order_def)
qed

lemma external_call_DB: "external_call w = (b, w') \<Longrightarrow> DB w' = DB w"
  by (auto simp: external_call_def split: list.splits)

lemma Save_order_other:
  "Save_order so w = (b, w') \<Longrightarrow> ID so \<noteq> i \<Longrightarrow> order_row (tx w') i = order_row (tx w) i"
  by (auto simp: Save_order_def order_row_def upsert_order_other
      split: prod.splits bool.splits dest: external_call_tx)

lemma Save_order_DB: "Save_order so w = (b, w') \<Longrightarrow> DB w' = DB w"
  by (auto simp: Save_order_def split: prod.splits bool.splits dest: external_call_DB)

lemma Save_user_rows:
  "Save_user u w = (b, w') \<Longrightarrow> standing_orders (tx w') = standing_orders (tx w) \<and> DB w' = DB w"
  by (auto simp: Save_user_def split: prod.splits bool.splits
      dest: external_call_tx external_call_DB)

lemma PerformWebhookRequest_DB: "PerformWebhookRequest so w = (b, w') \<Longrightarrow> DB w' = DB w"
  by (auto simp: PerformWebhookRequest_def split: if_splits prod.splits bool.splits
      dest: external_call_DB)

lemma persist_fragment_other:
  assumes "persist_fragment w so c u = (w', r)"
  shows "DB w' = DB w \<and> (ID so \<noteq> i \<longrightarrow> order_row (tx w') i = order_row (tx w) i)"
proof -
  obtain b1 w1 where s1: "Save_order so w = (b1, w1)" by (cases "Save_order so w")
  obtain b2 w2 where s2: "Save_user c w1 = (b2, w2)" by (cases "Save_user c w1")
  obtain b3 w3 where s3: "Save_user u w2 = (b3, w3)" by (cases "Save_user u w2")
  obtain b4 w4 where s4: "PerformWebhookRequest so w3 = (b4, w4)"
    by (cases "PerformWebhookRequest so w3")
  from assms have w': "w' = w1 \<or> w' = w2 \<or> w' = w3 \<or> w' = w4"
    by (auto simp: persist_fragment_def s1 s2 s3 s4 split: bool.splits)
  have d: "DB w1 = DB w" "DB w2 = DB w" "DB w3 = DB w" "DB w4 = DB w"
    using Save_order_DB [OF s1] Save_user_rows [OF s2] Save_user_rows [OF s3]
      PerformWebhookRequest_DB [OF s4] by simp_all
  have "order_row (tx w') i = order_row (tx w) i" if ne: "ID so \<noteq> i"
  proof -
    have "order_row (tx w1) i = order_row (tx w) i" using Save_order_other [OF s1 ne] .
    moreover have "order_row (tx w2) i = order_row (tx w1) i"
      using Save_user_rows [OF s2] by (simp add: order_row_def)
    moreover have "order_row (tx w3) i = order_row (tx w2) i"
      using Save_user_rows [OF s3] by (simp add: order_row_def)
    moreover have "order_row (tx w4) i = order_row (tx w3) i"
      using PerformWebhookRequest_tx [OF s4] by simp
    ultimately show ?thesis using w' by auto
  qed
  with d w' show ?thesis by auto
qed

lemma terminal_row_not_live:
  assumes "distinct (map ID sos)" and "find (\<lambda>x. ID x = i) sos = Some r"
    and "State r \<noteq> ''LIVE''" and "x \<in> set sos" and "State x = ''LIVE''"
  shows "ID x \<noteq> i"
proof
  assume "ID x = i"
  from assms(2) have "r \<in> set sos" "ID r = i" by (auto simp: find_Some_iff)
  with assms(1,4) \<open>ID x = i\<close> have "x = r" by (auto simp: distinct_map dest: inj_onD)
  with assms(3,5) show False by simp
qed

lemma BuyViaStandingOrder_other:
  assumes "BuyViaStandingOrder w user so n = (w', r)"
  shows "DB w' = DB w \<and> (ID so \<noteq> i \<longrightarrow> order_row (tx w') i = order_row (tx w) i)"
  using assms
  by (auto simp: BuyViaStandingOrder_def Let_def settle_order_ID
      split: option.splits prod.splits if_splits dest!: persist_fragment_other [where i = i])

lemma BuySatoshis_page_other:
  "BuySatoshis_page w user sos a b c = (w', r) \<Longrightarrow>
     DB w' = DB w \<and> (i \<notin> set (map ID sos) \<longrightarrow> order_row (tx w') i = order_row (tx w) i)"
proof (induction sos arbitrary: w user a b c)
  case Nil
  then show ?case by simp
next
  case (Cons so sos)
  obtain w1 u1 r1 where f: "BuyViaStandingOrder w user so c = (w1, u1, r1)"
    by (cases "BuyViaStandingOrder w user so c") auto
  note o = BuyViaStandingOrder_other [OF f, of i]
  show ?case
  proof (cases r1)
    case (Inl e)
    with Cons.prems f o show ?thesis by auto
  next
    case (Inr t)
    obtain q x fx where t: "t = (q, x, fx)" by (cases t)
    show ?thesis
    proof (cases "c - q = 0 \<or> fx")
      case True
      with Cons.prems f Inr t o show ?thesis by (auto simp: Let_def split: if_splits)
    next
      case False
      with Cons.prems f Inr t
      have "BuySatoshis_page w1 u1 sos (a + x) (b + q) (c - q) = (w', r)"
        by (simp add: Let_def)
      from Cons.IH [OF this] o show ?thesis by auto
    qed
  qed
qed

lemma getStandingSellOrders_live:
  assumes "getStandingSellOrders w p offset size0 = (w1, sos, err)"
  shows "tx w1 = tx w" and "DB w1 = DB w"
    and "\<And>x. x \<in> set sos \<Longrightarrow> \<exists>y\<in>set (standing_orders (tx w)). ID y = ID x \<and> State y = ''LIVE''"
proof -
  obtain b w0 where e: "external_call w = (b, w0)" by (cases "external_call w")
  note t = external_call_tx [OF e]
  note d = external_call_DB [OF e]
  from assms e t show "tx w1 = tx w"
    by (auto simp: getStandingSellOrders_def Let_def split: bool.splits if_splits)
  from assms e d show "DB w1 = DB w"
    by (auto simp: getStandingSellOrders_def Let_def split: bool.splits if_splits)
  fix x
  assume x: "x \<in> set sos"
  let ?rows = "live_sell_orders (tx w) p"
  have "sos = [] \<or> sos = map (preload_User (tx w)) (take size0 (drop offset ?rows))"
    using assms e t
    by (auto simp: getStandingSellOrders_def Let_def split: bool.splits if_splits)
  with x obtain y where y: "y \<in> set (take size0 (drop offset ?rows))" "x = preload_User (tx w) y"
    by auto
  then have "y \<in> set ?rows" by (auto dest: in_set_takeD in_set_dropD)
  then have "y \<in> set (standing_orders (tx w))" "State y = ''LIVE''"
    by (auto simp: live_sell_orders_def)
  with y show "\<exists>y\<in>set (standing_orders (tx w)). ID y = ID x \<and> State y = ''LIVE''"
    by (auto simp: preload_User_def)
qed

lemma BuySatoshis_loop_other:
  "BuySatoshis_loop w user p off a b c = (w', res) \<Longrightarrow> distinct (order_ids w) \<Longrightarrow>
   order_row (tx w) i = Some r \<Longrightarrow> State r \<noteq> ''LIVE'' \<Longrightarrow>
     DB w' = DB w \<and> order_ids w' = order_ids w \<and> order_row (tx w') i = Some r"
proof (induction w user p off a b c rule: BuySatoshis_loop.induct)
  case (1 w user p off a b c)
  show ?case
  proof (cases "c > 0")
    case False
    with "1.prems" show ?thesis by (subst (asm) BuySatoshis_loop.simps) simp
  next
    case True
    obtain w1 sos e1 where q: "getStandingSellOrders w p off 10 = (w1, sos, e1)"
      by (cases "getStandingSellOrders w p off 10") auto
    obtain w2 u2 a2 b2 c2 ex where
      pg: "BuySatoshis_page w1 user sos a b c = (w2, u2, (a2, b2, c2), ex)"
      by (cases "BuySatoshis_page w1 user sos a b c") auto
    note l = getStandingSellOrders_live [OF q]
    note g = getStandingSellOrders_page [OF q]
    have ni: "i \<notin> set (map ID sos)"
    proof
      assume "i \<in> set (map ID sos)"
      then obtain x where x: "x \<in> set sos" "ID x = i" by auto
      from l(3) [OF x(1)] obtain y where
        y: "y \<in> set (standing_orders (tx w))" "ID y = ID x" "State y = ''LIVE''" by auto
      from terminal_row_not_live [OF _ _ "1.prems"(4) y(1) y(3), of i] "1.prems"(2,3) y(2) x(2)
      show False by (simp add: order_ids_def order_row_def)
    qed
    have w1: "DB w1 = DB w" "order_ids w1 = order_ids w" "order_row (tx w1) i = Some r"
      using l(1,2) g(1) "1.prems"(3) by simp_all
    have w2: "DB w2 = DB w" "order_ids w2 = order_ids w" "order_row (tx w2) i = Some r"
      using BuySatoshis_page_other [OF pg, of i] ni w1 BuySatoshis_page_ids [OF pg] g(2)
      by simp_all
    show ?thesis
    proof (cases "e1 \<noteq> None \<and> e1 \<noteq> Some NO_MATCHING_STANDING_ORDERS")
      case True
      with "1.prems"(1) \<open>c > 0\<close> q w1 show ?thesis
        by (subst (asm) BuySatoshis_loop.simps) auto
    next
      case ok: False
      show ?thesis
      proof (cases "ex = page_done \<and> e1 \<noteq> Some NO_MATCHING_STANDING_ORDERS")
        case False
        with "1.prems"(1) \<open>c > 0\<close> q pg ok w2 show ?thesis
          by (subst (asm) BuySatoshis_loop.simps) (auto split: page_exit.splits)
      next
        case True
        with "1.prems"(1) \<open>c > 0\<close> q pg ok
        have rr: "BuySatoshis_loop w2 u2 p (off + 10) a2 b2 c2 = (w', res)"
          by (subst (asm) BuySatoshis_loop.simps) auto
        have d2: "distinct (order_ids w2)" using w2(2) "1.prems"(2) by simp
        from "1.IH" [OF \<open>c > 0\<close> q [symmetric] refl ok pg [symmetric] refl refl refl refl _ _
            rr d2 w2(3) "1.prems"(4)] True w2
        show ?thesis by simp
      qed
    qed
  qed
qed

lemma BuySatoshis_other:
  assumes "BuySatoshis w user n p = (w', res)" and "distinct (order_ids w)"
    and "order_row (tx w) i = Some r" and "State r \<noteq> ''LIVE''"
  shows "DB w' = DB w \<and> order_row (tx w') i = Some r"
proof -
  obtain w1 res1 where l: "BuySatoshis_loop w user p 0 0 0 n = (w1, res1)"
    by (cases "BuySatoshis_loop w user p 0 0 0 n")
  from assms(1) l have "w' = w1"
    by (auto simp: BuySatoshis_def split: prod.splits option.splits error.splits if_splits)
  with BuySatoshis_loop_other [OF l assms(2,3,4)] show ?thesis by simp
qed

lemma SellViaStandingOrder_other:
  assumes "SellViaStandingOrder w user so n = (w', r)"
  shows "DB w' = DB w \<and> (ID so \<noteq> i \<longrightarrow> order_row (tx w') i = order_row (tx w) i)"
  using assms
  by (auto simp: SellViaStandingOrder_def Let_def settle_order_ID
      split: option.splits prod.splits if_splits dest!: persist_fragment_other [where i = i])

lemma SellSatoshis_page_other:
  "SellSatoshis_page w user sos a b c = (w', r) \<Longrightarrow>
     DB w' = DB w \<and> (i \<notin> set (map ID sos) \<longrightarrow> order_row (tx w') i = order_row (tx w) i)"
proof (induction sos arbitrary: w user a b c)
  case Nil
  then show ?case by simp
next
  case (Cons so sos)
  obtain w1 u1 r1 where f: "SellViaStandingOrder w user so c = (w1, u1, r1)"
    by (cases "SellViaStandingOrder w user so c") auto
  note o = SellViaStandingOrder_other [OF f, of i]
  show ?case
  proof (cases r1)
    case (Inl e)
    with Cons.prems f o show ?thesis by auto
  next
    case (Inr t)
    obtain q x fx where t: "t = (q, x, fx)" by (cases t)
    show ?thesis
    proof (cases "c - q = 0 \<or> fx")
      case True
      with Cons.prems f Inr t o show ?thesis by (auto simp: Let_def split: if_splits)
    next
      case False
      with Cons.prems f Inr t
      have "SellSatoshis_page w1 u1 sos (a + x) (b + q) (c - q) = (w', r)"
        by (simp add: Let_def)
      from Cons.IH [OF this] o show ?thesis by auto
    qed
  qed
qed

lemma getStandingBuyOrders_live:
  assumes "getStandingBuyOrders w p offset size0 = (w1, sos, err)"
  shows "tx w1 = tx w" and "DB w1 = DB w"
    and "\<And>x. x \<in> set sos \<Longrightarrow> \<exists>y\<in>set (standing_orders (tx w)). ID y = ID x \<and> State y = ''LIVE''"
proof -
  obtain b w0 where e: "external_call w = (b, w0)" by (cases "external_call w")
  note t = external_call_tx [OF e]
  note d = external_call_DB [OF e]
  from assms e t show "tx w1 = tx w"
    by (auto simp: getStandingBuyOrders_def Let_def split: bool.splits if_splits)
  from assms e d show "DB w1 = DB w"
    by (auto simp: getStandingBuyOrders_def Let_def split: bool.splits if_splits)
  fix x
  assume x: "x \<in> set sos"
  let ?rows = "live_buy_orders (tx w) p"
  have "sos = [] \<or> sos = map (preload_User (tx w)) (take size0 (drop offset ?rows))"
    using assms e t
    by (auto simp: getStandingBuyOrders_def Let_def split: bool.splits if_splits)
  with x obtain y where y: "y \<in> set (take size0 (drop offset ?rows))" "x = preload_User (tx w) y"
    by auto
  then have "y \<in> set ?rows" by (auto dest: in_set_takeD in_set_dropD)
  then have "y \<in> set (standing_orders (tx w))" "State y = ''LIVE''"
    by (auto simp: live_buy_orders_def)
  with y show "\<exists>y\<in>set (standing_orders (tx w)). ID y = ID x \<and> State y = ''LIVE''"
    by (auto simp: preload_User_def)
qed

lemma SellSatoshis_loop_other:
  "SellSatoshis_loop w user p off a b c = (w', res) \<Longrightarrow> distinct (order_ids w) \<Longrightarrow>
   order_row (tx w) i = Some r \<Longrightarrow> State r \<noteq> ''LIVE'' \<Longrightarrow>
     DB w' = DB w \<and> order_ids w' = order_ids w \<and> order_row (tx w') i = Some r"
proof (induction w user p off a b c rule: SellSatoshis_loop.induct)
  case (1 w user p off a b c)
  show ?case
  proof (cases "c > 0")
    case False
    with "1.prems" show ?thesis by (subst (asm) SellSatoshis_loop.simps) simp
  next
    case True
    obtain w1 sos e1 where q: "getStandingBuyOrders w p off 10 = (w1, sos, e1)"
      by (cases "getStandingBuyOrders w p off 10") auto
    obtain w2 u2 a2 b2 c2 ex where
      pg: "SellSatoshis_page w1 user sos a b c = (w2, u2, (a2, b2, c2), ex)"
      by (cases "SellSatoshis_page w1 user sos a b c") auto
    note l = getStandingBuyOrders_live [OF q]
    note g = getStandingBuyOrders_page [OF q]
    have ni: "i \<notin> set (map ID sos)"
    proof
      assume "i \<in> set (map ID sos)"
      then obtain x where x: "x \<in> set sos" "ID x = i" by auto
      from l(3) [OF x(1)] obtain y where
        y: "y \<in> set (standing_orders (tx w))" "ID y = ID x" "State y = ''LIVE''" by auto
      from terminal_row_not_live [OF _ _ "1.prems"(4) y(1) y(3), of i] "1.prems"(2,3) y(2) x(2)
      show False by (simp add: order_ids_def order_row_def)
    qed
    have w1: "DB w1 = DB w" "order_ids w1 = order_ids w" "order_row (tx w1) i = Some r"
      using l(1,2) g(1) "1.prems"(3) by simp_all
    have w2: "DB w2 = DB w" "order_ids w2 = order_ids w" "order_row (tx w2) i = Some r"
      using SellSatoshis_page_other [OF pg, of i] ni w1 SellSatoshis_page_ids [OF pg] g(2)
      by simp_all
    show ?thesis
    proof (cases "e1 \<noteq> None \<and> e1 \<noteq> Some NO_MATCHING_STANDING_ORDERS")
      case True
      with "1.prems"(1) \<open>c > 0\<close> q w1 show ?thesis
        by (subst (asm) SellSatoshis_loop.simps) auto
    next
      case ok: False
      show ?thesis
      proof (cases "ex = page_done \<and> e1 \<noteq> Some NO_MATCHING_STANDING_ORDERS")
        case False
        with "1.prems"(1) \<open>c > 0\<close> q pg ok w2 show ?thesis
          by (subst (asm) SellSatoshis_loop.simps) (auto split: page_exit.splits)
      next
        case True
        with "1.prems"(1) \<open>c > 0\<close> q pg ok
        have rr: "SellSatoshis_loop w2 u2 p (off + 10) a2 b2 c2 = (w', res)"
          by (subst (asm) SellSatoshis_loop.simps) auto
        have d2: "distinct (order_ids w2)" using w2(2) "1.prems"(2) by simp
        from "1.IH" [OF \<open>c > 0\<close> q [symmetric] refl ok pg [symmetric] refl refl refl refl _ _
            rr d2 w2(3) "1.prems"(4)] True w2
        show ?thesis by simp
      qed
    qed
  qed
qed

lemma SellSatoshis_other:
  assumes "SellSatoshis w user n p = (w', res)" and "distinct (order_ids w)"
    and "order_row (tx w) i = Some r" and "State r \<noteq> ''LIVE''"
  shows "DB w' = DB w \<and> order_row (tx w') i = Some r"
proof -
  obtain w1 res1 where l: "SellSatoshis_loop w user p 0 0 0 n = (w1, res1)"
    by (cases "SellSatoshis_loop w user p 0 0 0 n")
  from assms(1) l have "w' = w1"
    by (auto simp: SellSatoshis_def split: prod.splits option.splits error.splits if_splits)
  with SellSatoshis_loop_other [OF l assms(2,3,4)] show ?thesis by simp
qed

lemma Commit_DB: "Commit w = (b, w') \<Longrightarrow> DB w' = (if b then tx w else DB w)"
  by (auto simp: Commit_def split: prod.splits bool.splits
      dest: external_call_tx external_call_DB)

lemma getAuthenticatedUser_world:
  "getAuthenticatedUser w token = (w', u) \<Longrightarrow> tx w' = tx w \<and> DB w' = DB w"
  by (auto simp: getAuthenticatedUser_def split: if_splits prod.splits bool.splits
      dest: external_call_tx external_call_DB)

lemma Buy_other:
  assumes "Buy w user amount limitPrice = (w', res)" and "distinct (order_ids w)"
    and "order_row (tx w) i = Some r" and "State r \<noteq> ''LIVE''"
  shows "DB w' = DB w \<and> order_row (tx w') i = Some r"
proof -
  obtain w1 res1 where
    b: "BuySatoshis w user (int64 (amount * 100000000)) (limitPrice / 1000000) = (w1, res1)"
    by (cases "BuySatoshis w user (int64 (amount * 100000000)) (limitPrice / 1000000)")
  from assms(1) b have "w' = w1" by (auto simp: Buy_def Let_def split: prod.splits)
  with BuySatoshis_other [OF b assms(2,3,4)] show ?thesis by simp
qed

lemma Sell_other:
  assumes "Sell w user amount limitPrice = (w', res)" and "distinct (order_ids w)"
    and "order_row (tx w) i = Some r" and "State r \<noteq> ''LIVE''"
  shows "DB w' = DB w \<and> order_row (tx w') i = Some r"
proof -
  obtain w1 res1 where
    b: "SellSatoshis w user (int64 (amount * 100000000)) (limitPrice / 1000000) = (w1, res1)"
    by (cases "SellSatoshis w user (int64 (amount * 100000000)) (limitPrice / 1000000)")
  from assms(1) b have "w' = w1" by (auto simp: Sell_def Let_def split: prod.splits)
  with SellSatoshis_other [OF b assms(2,3,4)] show ?thesis by simp
qed

lemma marketOrderHandler_row:
  assumes "distinct (map ID (standing_orders (DB w)))" and "order_row (DB w) i = Some r"
    and "State r \<noteq> ''LIVE''"
  shows "order_row (DB (fst (marketOrderHandler w token marketOrder))) i = Some r"
proof -
  obtain w1 u where a: "getAuthenticatedUser (Begin w) token = (w1, u)"
    by (cases "getAuthenticatedUser (Begin w) token")
  from getAuthenticatedUser_world [OF a]
  have w1: "tx w1 = DB w" "DB w1 = DB w" by (simp_all add: Begin_def)
  have rb: "\<And>x. DB x = DB w \<Longrightarrow> order_row (DB (Rollback x)) i = Some r"
    using assms(2) by (simp add: Rollback_def)
  have d: "distinct (order_ids w1)" "order_row (tx w1) i = Some r"
    using assms(1,2) w1 by (simp_all add: order_ids_def)
  have after: "order_row (DB (fst
      (if err = Some NO_MATCHING_STANDING_ORDERS then (Rollback w2, 409, None)
       else if err \<noteq> None then (Rollback w2, 500, None)
       else (case Commit w2 of
               (False, w3) \<Rightarrow> (Rollback w3, 200, None)
             | (True, w3) \<Rightarrow>
                 (w3, 200, Some \<lparr>out_Quantity = q, out_AveragePrice = avg\<rparr>))))) i = Some r"
    if w2: "DB w2 = DB w1 \<and> order_row (tx w2) i = Some r" for w2 q avg err
  proof -
    obtain b w3 where c: "Commit w2 = (b, w3)" by (cases "Commit w2")
    from Commit_DB [OF c] w2 w1 assms(2) have "order_row (DB w3) i = Some r"
      by (cases b) simp_all
    moreover have "DB w3 = DB w" if "\<not> b" using Commit_DB [OF c] that w2 w1 by simp
    ultimately show ?thesis using rb [of w2] rb [of w3] w2 w1 c by (cases b) simp_all
  qed
  show ?thesis
  proof (cases u)
    case None
    with a rb [OF w1(2)] show ?thesis by (simp add: marketOrderHandler_def)
  next
    case (Some user)
    show ?thesis
    proof (cases "mo_Type marketOrder \<noteq> ''BUY'' \<and> mo_Type marketOrder \<noteq> ''SELL''")
      case True
      with a Some rb [OF w1(2)] show ?thesis by (simp add: marketOrderHandler_def)
    next
      case valid: False
      show ?thesis
      proof (cases "mo_Type marketOrder = ''BUY''")
        case True
        obtain w2 u2 q avg err where
          s: "Buy w1 user (mo_Quantity marketOrder) 0 = (w2, u2, q, avg, err)"
          by (cases "Buy w1 user (mo_Quantity marketOrder) 0") auto
        from after [OF Buy_other [OF s d assms(3)], of err q avg] a Some True s
        show ?thesis by (cases err) (auto simp: marketOrderHandler_def split: if_splits)
      next
        case False
        obtain w2 u2 q avg err where
          s: "Sell w1 user (mo_Quantity marketOrder) 0 = (w2, u2, q, avg, err)"
          by (cases "Sell w1 user (mo_Quantity marketOrder) 0") auto
        from after [OF Sell_other [OF s d assms(3)], of err q avg] a Some False valid s
        show ?thesis by (cases err) (auto simp: marketOrderHandler_def split: if_splits)
      qed
    qed
  qed
qed

lemma ExecuteStandingOrder_row:
  assumes "distinct (map ID (standing_orders (DB w)))" and "order_row (DB w) i = Some r"
    and "State r \<noteq> ''LIVE''" and "ID so \<noteq> i"
  shows "order_row (DB (fst (ExecuteStandingOrder w user so))) i = Some r"
proof -
  have rb: "\<And>x. DB x = DB w \<Longrightarrow> order_row (DB (Rollback x)) i = Some r"
    using assms(2) by (simp add: Rollback_def)
  have d: "distinct (order_ids (Begin w))" "order_row (tx (Begin w)) i = Some r"
    using assms(1,2) by (simp_all add: order_ids_def Begin_def)
  have after: "order_row (DB (fst
      (if err = Some NO_MATCHING_STANDING_ORDERS then (Rollback w1, None)
       else if err \<noteq> None then (Rollback w1, err)
       else (case Save_order (settle_order so q (avg * to_float64 q)) w1 of
               (False, w2) \<Rightarrow> (Rollback w2, Some storage_error)
             | (True, w2) \<Rightarrow>
            (case Commit w2 of
               (False, w3) \<Rightarrow> (Rollback w3, Some storage_error)
             | (True, w3) \<Rightarrow>
            (case PerformWebhookRequest (settle_order so q (avg * to_float64 q)) w3 of
               (False, w4) \<Rightarrow> (w4, Some (unhandled nil_response_dereferenced))
             | (True, w4) \<Rightarrow> (w4, None))))))) i = Some r"
    if w1: "DB w1 = DB (Begin w) \<and> order_row (tx w1) i = Some r" for w1 q avg err
  proof -
    define so' where "so' = settle_order so q (avg * to_float64 q)"
    obtain b2 w2 where sv: "Save_order so' w1 = (b2, w2)" by (cases "Save_order so' w1")
    have w2: "DB w2 = DB w" "order_row (tx w2) i = Some r"
      using Save_order_DB [OF sv] Save_order_other [OF sv, of i] assms(4) w1
      by (simp_all add: settle_order_ID so'_def Begin_def)
    obtain b3 w3 where c: "Commit w2 = (b3, w3)" by (cases "Commit w2")
    from Commit_DB [OF c] w2 assms(2) have w3: "order_row (DB w3) i = Some r"
      by (cases b3) simp_all
    have w3': "DB w3 = DB w" if "\<not> b3" using Commit_DB [OF c] that w2 by simp
    obtain b4 w4 where p: "PerformWebhookRequest so' w3 = (b4, w4)"
      by (cases "PerformWebhookRequest so' w3")
    from PerformWebhookRequest_DB [OF p] w3 have w4: "order_row (DB w4) i = Some r" by simp
    have w1': "DB w1 = DB w" using w1 by (simp add: Begin_def)
    show ?thesis
      unfolding so'_def [symmetric]
      using rb [OF w1'] rb [OF w2(1)] rb [of w3] w3' w4 sv c p
      by (cases b2; cases b3; cases b4) simp_all
  qed
  show ?thesis
  proof (cases "Type so = ''BUY''")
    case True
    obtain w1 u1 q avg err where
      s: "BuySatoshis (Begin w) user (RemainingQuantity so) (LimitPrice so) = (w1, u1, q, avg, err)"
      by (cases "BuySatoshis (Begin w) user (RemainingQuantity so) (LimitPrice so)") auto
    from after [OF BuySatoshis_other [OF s d assms(3)], of err q avg] True s
    show ?thesis by (cases err) (auto simp: ExecuteStandingOrder_def Let_def split: if_splits)
  next
    case False
    obtain w1 u1 q avg err where
      s: "SellSatoshis (Begin w) user (RemainingQuantity so) (LimitPrice so) = (w1, u1, q, avg, err)"
      by (cases "SellSatoshis (Begin w) user (RemainingQuantity so) (LimitPrice so)") auto
    from after [OF SellSatoshis_other [OF s d assms(3)], of err q avg] False s
    show ?thesis by (cases err) (auto simp: ExecuteStandingOrder_def Let_def split: if_splits)
  qed
qed

lemma getStandingOrderFromDb_tx:
  "getStandingOrderFromDb tx w j = (w', res) \<Longrightarrow>
     tx w' = tx w \<and> DB w' = DB w \<and> (\<forall>so. res = Inr so \<longrightarrow> order_row (tx w) j = Some so)"
  by (auto simp: getStandingOrderFromDb_def order_row_def
      split: prod.splits bool.splits option.splits dest: external_call_tx external_call_DB)

lemma Save_order_same:
  "Save_order so w = (True, w') \<Longrightarrow> order_row (tx w') (ID so) = Some (so\<lparr>User := zero_User\<rparr>)"
  by (auto simp: Save_order_def order_row_def upsert_order_same
      split: prod.splits bool.splits dest: external_call_tx)

lemma DeleteStandingOrder_row:
  assumes "order_row (DB w) i = Some r"
  shows "\<exists>r'. order_row (DB (fst (DeleteStandingOrder w user j))) i = Some r'
           \<and> FulfilledQuantity r' = FulfilledQuantity r
           \<and> RemainingQuantity r' = RemainingQuantity r
           \<and> (State r' = State r \<or> State r' = ''CANCELLED'')"
proof -
  obtain w1 res where g: "getStandingOrderFromDb tx (Begin w) j = (w1, res)"
    by (cases "getStandingOrderFromDb tx (Begin w) j")
  from getStandingOrderFromDb_tx [OF g]
  have w1: "tx w1 = DB w" "DB w1 = DB w" "\<And>so. res = Inr so \<Longrightarrow> order_row (DB w) j = Some so"
    by (simp_all add: Begin_def)
  have rb: "\<And>x. DB x = DB w \<Longrightarrow> order_row (DB (Rollback x)) i = Some r"
    using assms by (simp add: Rollback_def)
  show ?thesis
  proof (cases res)
    case (Inl e)
    with g rb [OF w1(2)] show ?thesis by (simp add: DeleteStandingOrder_def)
  next
    case (Inr so)
    show ?thesis
    proof (cases "UserId so \<noteq> User.ID user")
      case True
      with g Inr rb [OF w1(2)] show ?thesis by (simp add: DeleteStandingOrder_def)
    next
      case False
      define so' where "so' = so\<lparr>State := ''CANCELLED''\<rparr>"
      obtain b2 w2 where sv: "Save_order so' w1 = (b2, w2)" by (cases "Save_order so' w1")
      obtain b3 w3 where c: "Commit w2 = (b3, w3)" by (cases "Commit w2")
      obtain b4 w4 where p: "PerformWebhookRequest so' w3 = (b4, w4)"
        by (cases "PerformWebhookRequest so' w3")
      have j: "ID so = j" using w1(3) [OF Inr] by (auto simp: order_row_def find_Some_iff)
      have d2: "DB w2 = DB w" using Save_order_DB [OF sv] w1(2) by simp
      have d3: "DB w3 = DB w" if "\<not> b3" using Commit_DB [OF c] that d2 by simp
      have fst_eq: "fst (DeleteStandingOrder w user j) =
              (if \<not> b2 then Rollback w2 else if \<not> b3 then Rollback w3 else w4)"
        using False sv c p
        by (cases b2; cases b3; cases b4)
          (simp_all add: DeleteStandingOrder_def g Inr Let_def so'_def [symmetric])
      show ?thesis
      proof (cases "b2 \<and> b3")
        case False
        with fst_eq rb [OF d2] rb d3 have "order_row (DB (fst (DeleteStandingOrder w user j))) i
            = Some r"
          by auto
        then show ?thesis by simp
      next
        case True
        with fst_eq have "DB (fst (DeleteStandingOrder w user j)) = tx w2"
          using Commit_DB [OF c] PerformWebhookRequest_DB [OF p] by simp
        moreover have "\<exists>r'. order_row (tx w2) i = Some r'
           \<and> FulfilledQuantity r' = FulfilledQuantity r
           \<and> RemainingQuantity r' = RemainingQuantity r
           \<and> (State r' = State r \<or> State r' = ''CANCELLED'')"
        proof (cases "j = i")
          case eq: True
          with w1(3) [OF Inr] assms have "so = r" by simp
          moreover have "order_row (tx w2) (ID so') = Some (so'\<lparr>User := zero_User\<rparr>)"
            using Save_order_same [of so' w1 w2] sv True by simp
          ultimately show ?thesis using j eq by (simp add: so'_def)
        next
          case False
          with Save_order_other [OF sv, of i] j w1(1) assms show ?thesis
            by (simp add: so'_def)
        qed
        ultimately show ?thesis by simp
      qed
    qed
  qed
qed

text \<open>
  Claim C8, as stated: once an order is FULFILLED or CANCELLED, no later operation
  changes its state. A cancellation does: \<open>DeleteStandingOrder\<close> sets the state of the
  owner's order to CANCELLED whatever it was. After B's market order has fulfilled both
  orders of the two sellers, the first seller cancels order 1, and the order is
  CANCELLED.
\<close>

theorem C8_counterexample:
  "book (DB (handle two_sellers buy_two))
     = [(1, ''FULFILLED'', 1, 0), (2, ''FULFILLED'', 2, 0)]
   \<and> book (DB (serve two_sellers [buy_two, DeleteOrder ''T1'' 1]))
     = [(1, ''CANCELLED'', 1, 0), (2, ''FULFILLED'', 2, 0)]"
  by code_simp

text \<open>
  Claim C8, amended: for every standing order whose state is FULFILLED or CANCELLED (in
  a table whose identifiers are distinct), a matching scan, a market order, and the
  execution of another standing order leave the whole row as it is, so a CANCELLED order
  never gains fills from them, and a cancellation leaves its fulfilled and remaining
  quantities as they are and either leaves its state or, when it is the owner's
  cancellation of this order, sets it to CANCELLED: CANCELLED is terminal, and FULFILLED
  can only become CANCELLED.
\<close>

theorem C8_terminal_orders:
  assumes "distinct (map ID (standing_orders (DB w)))"
    and "order_row (DB w) i = Some r"
    and "State r = ''FULFILLED'' \<or> State r = ''CANCELLED''"
  shows "order_row (tx (fst (BuySatoshis (Begin w) user wanted limitPrice))) i = Some r
       \<and> order_row (tx (fst (SellSatoshis (Begin w) user wanted limitPrice))) i = Some r
       \<and> order_row (DB (fst (marketOrderHandler w token marketOrder))) i = Some r
       \<and> (ID standingOrder \<noteq> i \<longrightarrow>
            order_row (DB (fst (ExecuteStandingOrder w user standingOrder))) i = Some r)
       \<and> (\<exists>r'. order_row (DB (fst (DeleteStandingOrder w user j))) i = Some r'
                 \<and> FulfilledQuantity r' = FulfilledQuantity r
                 \<and> RemainingQuantity r' = RemainingQuantity r
                 \<and> (State r' = State r \<or> State r' = ''CANCELLED''))"
proof -
  from assms(3) have t: "State r \<noteq> ''LIVE''" by auto
  have d: "distinct (order_ids (Begin w))" "order_row (tx (Begin w)) i = Some r"
    using assms(1,2) by (simp_all add: order_ids_def Begin_def)
  have "order_row (tx (fst (BuySatoshis (Begin w) user wanted limitPrice))) i = Some r"
    using BuySatoshis_other [OF _ d t, of user wanted limitPrice]
    by (cases "BuySatoshis (Begin w) user wanted limitPrice") simp
  moreover have "order_row (tx (fst (SellSatoshis (Begin w) user wanted limitPrice))) i = Some r"
    using SellSatoshis_other [OF _ d t, of user wanted limitPrice]
    by (cases "SellSatoshis (Begin w) user wanted limitPrice") simp
  ultimately show ?thesis
    using marketOrderHandler_row [OF assms(1,2) t] ExecuteStandingOrder_row [OF assms(1,2) t]
      DeleteStandingOrder_row [OF assms(2)]
    by blast
qed

text \<open>
  The witness: after B's market order, order 1 is FULFILLED. Another market order, the
  execution of order 2 and a cancellation by another user leave it FULFILLED; its
  owner's cancellation makes it CANCELLED, with the quantities as they were.
\<close>

definition both_fulfilled :: world where
  "both_fulfilled = handle two_sellers buy_two"

definition fulfilled_row :: StandingOrder where
  "fulfilled_row =
     \<lparr>ID = 1, UserId = ''S1'', Type = ''SELL'', State = ''FULFILLED'', LimitPrice = 1,
      AveragePrice = Some 1, FulfilledQuantity = 100000000, RemainingQuantity = 0,
      WebhookURL = ''http://s1'', User = zero_User\<rparr>"

definition first_seller :: User where
  "first_seller =
     \<lparr>User.ID = ''S1'', Token = ''T1'', USDCentsBalance = 100000000, BTCSatoshiBalance = 0\<rparr>"

theorem C8_terminal_orders_witness:
  "distinct (map ID (standing_orders (DB both_fulfilled)))
   \<and> order_row (DB both_fulfilled) 1 = Some fulfilled_row
   \<and> State fulfilled_row = ''FULFILLED''
   \<and> order_row (DB (fst (marketOrderHandler both_fulfilled ''TB''
                           \<lparr>mo_Quantity = 1, mo_Type = ''SELL''\<rparr>))) 1 = Some fulfilled_row
   \<and> order_row (DB (fst (ExecuteStandingOrder both_fulfilled first_seller
                           (fulfilled_row\<lparr>ID := 2\<rparr>)))) 1 = Some fulfilled_row
   \<and> order_row (DB (fst (DeleteStandingOrder both_fulfilled first_seller 1))) 1
       = Some (fulfilled_row\<lparr>State := ''CANCELLED''\<rparr>)"
proof -
  have d: "distinct (map ID (standing_orders (DB both_fulfilled)))"
    unfolding both_fulfilled_def by code_simp
  have r: "order_row (DB both_fulfilled) 1 = Some fulfilled_row"
    unfolding both_fulfilled_def by code_simp
  have s: "State fulfilled_row = ''FULFILLED'' \<or> State fulfilled_row = ''CANCELLED''"
    by (simp add: fulfilled_row_def)
  have n: "ID (fulfilled_row\<lparr>ID := 2\<rparr>) \<noteq> 1" by simp
  have c: "order_row (DB (fst (DeleteStandingOrder both_fulfilled first_seller 1))) 1
       = Some (fulfilled_row\<lparr>State := ''CANCELLED''\<rparr>)"
    unfolding both_fulfilled_def by code_simp
  from C8_terminal_orders [OF d r s, of first_seller 0 0 "''TB''"
      "\<lparr>mo_Quantity = 1, mo_Type = ''SELL''\<rparr>" "fulfilled_row\<lparr>ID := 2\<rparr>" 1] n d r c
  show ?thesis by (simp add: fulfilled_row_def)
qed


text \<open>
  The execution of an order itself is another matter: it writes the order it was
  started with. S places a standing SELL order that B's resting BUY order can fill, and
  cancels it before the goroutine of its execution has run; when the goroutine runs, it
  fills the order and saves it as FULFILLED.
\<close>

definition cancelled_before_execution :: "request list" where
  "cancelled_before_execution =
     [Register ''B'' ''TB'',
      PostBalance ''TB'' \<lparr>TopupAmount = 2000000, Currency = ''USD''\<rparr>,
      PostStandingOrder ''TB''
        \<lparr>nso_Type = ''BUY'', nso_Quantity = 1, nso_LimitPrice = 2000000, nso_WebhookURL = []\<rparr>,
      RunGoroutine,
      Register ''S'' ''TS'',
      PostBalance ''TS'' \<lparr>TopupAmount = 1, Currency = ''BTC''\<rparr>,
      PostStandingOrder ''TS''
        \<lparr>nso_Type = ''SELL'', nso_Quantity = 1, nso_LimitPrice = 1000000, nso_WebhookURL = []\<rparr>,
      DeleteOrder ''TS'' 2,
      RunGoroutine]"

lemma pending_execution_of_cancelled_order:
  "book (DB (serve initial_world (take 8 cancelled_before_execution)))
     = [(1, ''LIVE'', 2, 100000000), (2, ''CANCELLED'', 1, 100000000)]
   \<and> book (DB (serve initial_world cancelled_before_execution))
     = [(1, ''FULFILLED'', 2, 0), (2, ''FULFILLED'', 1, 0)]"
  unfolding cancelled_before_execution_def by code_simp

end
